theory Spec2Isabelle
  imports Main "HOL-Library.Word"
begin

section \<open>Identifier mapper (ad\_sync.py: sid\_to\_uid, sid\_to\_string)\<close>

text \<open>
  The two functions take what ldap3 hands over for \<open>objectSid\<close>: raw bytes, a Python
  \<open>str\<close>, or nothing. A \<open>str\<close> is modelled as a \<open>string\<close>, whose characters are the
  code points 0..255; that is the range \<open>encode('latin-1')\<close> accepts, and within it the
  encoding is the identity on code points.
\<close>

type_synonym byte = "8 word"

datatype sid_value = SidNone | SidStr string | SidBytes "byte list"

datatype py_exn = ValueError | StructError | TypeError

subsection \<open>Python primitives used by the mapper\<close>

text \<open>\<open>not x\<close> for \<open>None\<close>, an empty \<open>str\<close> and empty \<open>bytes\<close>.\<close>

definition falsy :: "sid_value \<Rightarrow> bool" where
  "falsy v = (case v of SidNone \<Rightarrow> True | SidStr s \<Rightarrow> s = [] | SidBytes bs \<Rightarrow> bs = [])"

definition startswith :: "string \<Rightarrow> string \<Rightarrow> bool" where
  "startswith s p = (take (length p) s = p)"

text \<open>\<open>s.split(c)\<close>: every occurrence of the separator cuts, empty pieces are kept.\<close>

fun split_from :: "char \<Rightarrow> string \<Rightarrow> string \<Rightarrow> string list" where
  "split_from c piece [] = [piece]"
| "split_from c piece (x # xs) =
     (if x = c then piece # split_from c [] xs else split_from c (piece @ [x]) xs)"

definition split_on :: "char \<Rightarrow> string \<Rightarrow> string list" where
  "split_on c s = split_from c [] s"

definition encode_latin1 :: "string \<Rightarrow> byte list" where
  "encode_latin1 s = map (\<lambda>c. word_of_nat (of_char c)) s"

definition is_digit :: "char \<Rightarrow> bool" where
  "is_digit c = (c \<in> set ''0123456789'')"

definition digit_val :: "char \<Rightarrow> nat" where
  "digit_val c = of_char c - 48"

text \<open>
  The characters \<open>int()\<close> strips at both ends of a \<open>str\<close>: tab, LF, VT, FF, CR, space,
  and the two Latin-1 white-space code points NEL (133) and NBSP (160).
\<close>

definition is_space :: "char \<Rightarrow> bool" where
  "is_space c = ((of_char c :: nat) \<in> set [9, 10, 11, 12, 13, 32, 133, 160])"

text \<open>A digit, then digits with at most one underscore between two of them.\<close>

fun digits_ok :: "string \<Rightarrow> bool" where
  "digits_ok [] = False"
| "digits_ok [c] = is_digit c"
| "digits_ok (c # d # r) =
     (is_digit c \<and> (if d = CHR ''_'' then digits_ok r else digits_ok (d # r)))"

definition digits_value :: "string \<Rightarrow> nat" where
  "digits_value ds = foldl (\<lambda>a c. 10 * a + digit_val c) 0 ds"

text \<open>CPython's default limit on the number of digits of a converted string.\<close>

definition max_str_digits :: nat where
  "max_str_digits = 4300"

text \<open>
  \<open>int(s)\<close> for a \<open>str\<close> in base 10: white space stripped at both ends, an optional
  sign, then the digits. Anything else raises \<open>ValueError\<close>.
\<close>

definition py_int :: "string \<Rightarrow> py_exn + int" where
  "py_int s =
     (let t = rev (dropWhile is_space (rev (dropWhile is_space s)));
          neg = (t \<noteq> [] \<and> hd t = CHR ''-'');
          body = (if t \<noteq> [] \<and> (hd t = CHR ''-'' \<or> hd t = CHR ''+'') then tl t else t);
          ds = filter (\<lambda>c. c \<noteq> CHR ''_'') body
      in if \<not> digits_ok body then Inl ValueError
         else if max_str_digits < length ds then Inl ValueError
         else Inr (if neg then - int (digits_value ds) else int (digits_value ds)))"

text \<open>\<open>struct.unpack('<I', b)[0]\<close>: exactly four bytes, least significant first.\<close>

definition unpack_le_u32 :: "byte list \<Rightarrow> py_exn + nat" where
  "unpack_le_u32 b =
     (if length b = 4
      then Inr (unat (b ! 0) + 256 * unat (b ! 1) + 65536 * unat (b ! 2) + 16777216 * unat (b ! 3))
      else Inl StructError)"

text \<open>\<open>struct.unpack('>Q', b)[0]\<close>: exactly eight bytes, most significant first.\<close>

definition unpack_be_u64 :: "byte list \<Rightarrow> py_exn + nat" where
  "unpack_be_u64 b =
     (if length b = 8 then Inr (foldl (\<lambda>a x. 256 * a + unat x) 0 b) else Inl StructError)"

text \<open>The decimal digits of \<open>f"{n}"\<close> for a non-negative integer.\<close>

definition digit_char :: "nat \<Rightarrow> char" where
  "digit_char d = ''0123456789'' ! d"

fun str_nat :: "nat \<Rightarrow> string" where
  "str_nat n = (if n < 10 then [digit_char n] else str_nat (n div 10) @ [digit_char (n mod 10)])"

declare str_nat.simps [simp del]

subsection \<open>sid\_to\_uid\<close>

text \<open>
  The loop \<open>for i in range(sub_auth_count)\<close> that reads one little-endian 32-bit
  sub-authority per step at offset \<open>8 + i * 4\<close> and appends it. A slice that runs past
  the end of the buffer is short, so \<open>struct.unpack\<close> raises.
\<close>

fun sub_auth_loop :: "byte list \<Rightarrow> nat list \<Rightarrow> nat list \<Rightarrow> py_exn + nat list" where
  "sub_auth_loop sid_bytes [] sub_authorities = Inr sub_authorities"
| "sub_auth_loop sid_bytes (i # is) sub_authorities =
     (let offset = 8 + i * 4 in
      case unpack_le_u32 (take 4 (drop offset sid_bytes)) of
        Inl e \<Rightarrow> Inl e
      | Inr sub_auth \<Rightarrow> sub_auth_loop sid_bytes is (sub_authorities @ [sub_auth]))"

text \<open>The binary branch, from the length check on.\<close>

definition sid_to_uid_binary :: "byte list \<Rightarrow> int \<Rightarrow> py_exn + int option" where
  "sid_to_uid_binary sid_bytes id_range_base =
     (if length sid_bytes < 12 then Inr None
      else
        let sub_auth_count = unat (sid_bytes ! 1) in
        case unpack_be_u64 ([0, 0] @ take 6 (drop 2 sid_bytes)) of
          Inl e \<Rightarrow> Inl e
        | Inr authority \<Rightarrow>
            (case sub_auth_loop sid_bytes [0..<sub_auth_count] [] of
               Inl e \<Rightarrow> Inl e
             | Inr sub_authorities \<Rightarrow>
                 if length sub_authorities = 0 then Inr None
                 else Inr (Some (id_range_base + int (last sub_authorities)))))"

text \<open>The body of the \<open>try\<close> block; \<open>Inl\<close> is an exception raised inside it.\<close>

definition sid_to_uid_try :: "sid_value \<Rightarrow> int \<Rightarrow> py_exn + int option" where
  "sid_to_uid_try sid id_range_base =
     (case sid of
        SidNone \<Rightarrow> Inl TypeError
      | SidStr s \<Rightarrow>
          if startswith s ''S-'' then
            (let parts = split_on CHR ''-'' s in
             if 8 \<le> length parts then
               (case py_int (last parts) of
                  Inl e \<Rightarrow> Inl e
                | Inr rid \<Rightarrow> Inr (Some (id_range_base + rid)))
             else Inr None)
          else sid_to_uid_binary (encode_latin1 s) id_range_base
      | SidBytes b \<Rightarrow> sid_to_uid_binary b id_range_base)"

text \<open>
  The whole function: a falsy argument returns \<open>None\<close> before the \<open>try\<close>, and the
  handler \<open>except Exception\<close> turns every exception of the block into \<open>None\<close>.
\<close>

definition sid_to_uid :: "sid_value \<Rightarrow> int \<Rightarrow> int option" where
  "sid_to_uid sid id_range_base =
     (if falsy sid then None
      else case sid_to_uid_try sid id_range_base of Inl e \<Rightarrow> None | Inr r \<Rightarrow> r)"

subsection \<open>sid\_to\_string\<close>




subsection \<open>Vocabulary of the specification\<close>

text \<open>
  The \<open>i\<close>-th sub-authority of a binary identifier: the little-endian 32-bit integer at
  byte offset \<open>8 + 4 * i\<close>.
\<close>

definition sub_authority :: "byte list \<Rightarrow> nat \<Rightarrow> nat" where
  "sub_authority b i =
     unat (b ! (8 + i * 4)) + 256 * unat (b ! (8 + i * 4 + 1)) +
     65536 * unat (b ! (8 + i * 4 + 2)) + 16777216 * unat (b ! (8 + i * 4 + 3))"

text \<open>
  The two forms the specification calls accepted: a textual identifier with the prefix
  \<open>S-\<close> and at least 8 dash-separated components, or a buffer of at least 12 bytes
  that declares at least one sub-authority.
\<close>

definition accepted_form :: "sid_value \<Rightarrow> bool" where
  "accepted_form sid =
     (case sid of
        SidNone \<Rightarrow> False
      | SidStr s \<Rightarrow> startswith s ''S-'' \<and> 8 \<le> length (split_on CHR ''-'' s)
      | SidBytes b \<Rightarrow> 12 \<le> length b \<and> 1 \<le> unat (b ! 1))"

text \<open>
  The relative identifier: the integer value of the last dash-separated component, or
  the last declared sub-authority of a buffer that holds all of them.
\<close>

definition rid :: "sid_value \<Rightarrow> int option" where
  "rid sid =
     (case sid of
        SidNone \<Rightarrow> None
      | SidStr s \<Rightarrow>
          (case py_int (last (split_on CHR ''-'' s)) of Inl e \<Rightarrow> None | Inr r \<Rightarrow> Some r)
      | SidBytes b \<Rightarrow>
          if 8 + 4 * unat (b ! 1) \<le> length b
          then Some (int (sub_authority b (unat (b ! 1) - 1))) else None)"




section \<open>Reconciliation engine (ad\_sync.py: class ADSync)\<close>

subsection \<open>Source records\<close>

text \<open>
  An attribute value as ldap3 delivers it: a scalar or a list of scalars. The snapshot
  handed to the reconcilers is the result of \<open>get_ad_users\<close> and \<open>get_ad_groups\<close>: one
  attribute dictionary per entry, with \<open>sAMAccountName\<close> a single string.
\<close>

datatype atom = ANone | ABool bool | AInt int | AStr string

datatype ad_value = One atom | Many "atom list"

type_synonym ad_attrs = "string \<rightharpoonup> ad_value"

fun truthy_atom :: "atom \<Rightarrow> bool" where
  "truthy_atom ANone = False"
| "truthy_atom (ABool b) = b"
| "truthy_atom (AInt i) = (i \<noteq> 0)"
| "truthy_atom (AStr s) = (s \<noteq> [])"

fun truthy :: "ad_value \<Rightarrow> bool" where
  "truthy (One a) = truthy_atom a"
| "truthy (Many xs) = (xs \<noteq> [])"

definition str_int :: "int \<Rightarrow> string" where
  "str_int i = (if i < 0 then CHR ''-'' # str_nat (nat (- i)) else str_nat (nat i))"

text \<open>The text an f-string puts for a scalar.\<close>

fun py_str :: "atom \<Rightarrow> string" where
  "py_str ANone = ''None''"
| "py_str (ABool b) = (if b then ''True'' else ''False'')"
| "py_str (AInt i) = str_int i"
| "py_str (AStr s) = s"

definition sam_account_name :: "ad_attrs \<Rightarrow> string" where
  "sam_account_name attrs =
     (case attrs ''sAMAccountName'' of Some (One (AStr s)) \<Rightarrow> s | _ \<Rightarrow> [])"

text \<open>
  \<open>get_ad_users\<close> stores under \<open>_is_disabled\<close> whether bit \<open>0x0002\<close> of
  \<open>userAccountControl\<close> is set: \<open>bool(uac and (uac & 0x0002))\<close>.
\<close>

definition uac_is_disabled :: "int \<Rightarrow> bool" where
  "uac_is_disabled uac = (uac \<noteq> 0 \<and> and uac 2 \<noteq> 0)"

definition is_disabled_of :: "ad_attrs \<Rightarrow> bool" where
  "is_disabled_of attrs = (case attrs ''_is_disabled'' of None \<Rightarrow> False | Some v \<Rightarrow> truthy v)"

subsection \<open>Configuration\<close>

record config =
  cfg_id_range_base :: int
  user_attribute_mapping :: "(string \<times> string) list"
  default_email_domain :: "string option"
  user_include_filter :: "string list"
  user_exclude_filter :: "string list"
  group_include_filter :: "string list"
  group_exclude_filter :: "string list"
  cfg_sync_users :: bool
  cfg_sync_groups :: bool
  cfg_sync_group_memberships :: bool

subsection \<open>Attribute mapper and scope filter\<close>

fun map_attrs_loop :: "ad_attrs \<Rightarrow> (string \<times> string) list \<Rightarrow> (string \<rightharpoonup> atom) \<Rightarrow> (string \<rightharpoonup> atom)" where
  "map_attrs_loop ad_attrs [] ipa_user = ipa_user"
| "map_attrs_loop ad_attrs ((ad_attr, ipa_attr) # mapping) ipa_user =
     map_attrs_loop ad_attrs mapping
       (case ad_attrs ad_attr of
          None \<Rightarrow> ipa_user
        | Some v \<Rightarrow>
            if \<not> truthy v then ipa_user
            else (case (case v of One a \<Rightarrow> a | Many xs \<Rightarrow> (case xs of [] \<Rightarrow> ANone | a # _ \<Rightarrow> a)) of
                    val \<Rightarrow> if truthy_atom val then ipa_user(ipa_attr \<mapsto> val) else ipa_user))"

definition map_user_attributes :: "config \<Rightarrow> ad_attrs \<Rightarrow> (string \<rightharpoonup> atom)" where
  "map_user_attributes cfg ad_attrs =
     (let ipa_user = map_attrs_loop ad_attrs (user_attribute_mapping cfg) Map.empty in
      if (case ipa_user ''mail'' of None \<Rightarrow> True | Some m \<Rightarrow> \<not> truthy_atom m) then
        (case default_email_domain cfg of
           None \<Rightarrow> ipa_user
         | Some default_domain \<Rightarrow>
             (case ipa_user ''uid'' of
                None \<Rightarrow> ipa_user
              | Some uid \<Rightarrow>
                  if default_domain = [] then ipa_user
                  else ipa_user(''mail'' \<mapsto> AStr (py_str uid @ ''@'' @ default_domain))))
      else ipa_user)"

definition should_sync_user :: "config \<Rightarrow> string \<Rightarrow> bool" where
  "should_sync_user cfg username =
     (if user_include_filter cfg \<noteq> [] \<and> username \<notin> set (user_include_filter cfg) then False
      else if user_exclude_filter cfg \<noteq> [] \<and> username \<in> set (user_exclude_filter cfg) then False
      else True)"

definition should_sync_group :: "config \<Rightarrow> string \<Rightarrow> bool" where
  "should_sync_group cfg groupname =
     (if group_include_filter cfg \<noteq> [] \<and> groupname \<notin> set (group_include_filter cfg) then False
      else if group_exclude_filter cfg \<noteq> [] \<and> groupname \<in> set (group_exclude_filter cfg) then False
      else True)"

text \<open>\<open>name.replace(' ', '-').replace('(', '').replace(')', '')\<close>\<close>

definition sanitize :: "string \<Rightarrow> string" where
  "sanitize name =
     filter (\<lambda>c. c \<noteq> CHR '')'')
       (filter (\<lambda>c. c \<noteq> CHR ''('')
          (map (\<lambda>c. if c = CHR '' '' then CHR ''-'' else c) name))"

subsection \<open>The target directory\<close>

datatype member_kind = MUser | MGroup

text \<open>The calls of the FreeIPA client that the engine makes, with their arguments.\<close>

datatype ipa_call =
    UserShow string
  | UserAdd atom atom atom atom "(string \<times> atom) list"
  | UserMod string "(string \<times> atom) list"
  | UserDisable string
  | UserEnable string
  | GroupShow string
  | GroupAdd string "(string \<times> ad_value) list"
  | GroupAddMember string member_kind string
  | IdrangeShow string
  | IdrangeAdd string int int int int

fun mutating :: "ipa_call \<Rightarrow> bool" where
  "mutating (UserShow k) = False"
| "mutating (GroupShow k) = False"
| "mutating (IdrangeShow k) = False"
| "mutating c = True"

datatype ipa_error = NotFound | DuplicateEntry | ServerError

record ipa_user_entry =
  nsaccountlock :: "bool option"
  user_attrs :: "(string \<times> atom) list"

record ipa_group_entry =
  member_user :: "string list"
  member_group :: "string list"
  group_attrs :: "(string \<times> ad_value) list"

datatype ipa_reply = RUser ipa_user_entry | RGroup ipa_group_entry | ROk

text \<open>
  Modelled from the spec: the Target Directory collaborator of section 6 (the FreeIPA
  server behind \<open>python_freeipa\<close>, which is not part of the repository). It is an
  in-memory directory of principals, groups and identity ranges; \<open>ipa_rejects\<close> marks
  the calls the server refuses with an error, \<open>ipa_login_ok\<close> whether the login succeeds.
\<close>

record ipa =
  ipa_users :: "string \<rightharpoonup> ipa_user_entry"
  ipa_groups :: "string \<rightharpoonup> ipa_group_entry"
  ipa_idranges :: "string list"
  ipa_rejects :: "ipa_call \<Rightarrow> bool"
  ipa_login_ok :: bool

text \<open>
  Modelled from the spec: what a call that the server does not refuse answers, and the
  directory after it. A lookup of a missing key answers \<open>NotFound\<close>; creating an
  existing key answers \<open>DuplicateEntry\<close>; \<open>addGroupMember\<close> adds a member that is
  not there yet, and there is no call that removes one.
\<close>

fun ipa_apply :: "ipa_call \<Rightarrow> ipa \<Rightarrow> ipa_error + (ipa_reply \<times> ipa)" where
  "ipa_apply (UserShow k) t =
     (case ipa_users t k of None \<Rightarrow> Inl NotFound | Some e \<Rightarrow> Inr (RUser e, t))"
| "ipa_apply (UserAdd uid givenname sn cn params) t =
     (case ipa_users t (py_str uid) of
        Some e \<Rightarrow> Inl DuplicateEntry
      | None \<Rightarrow>
          Inr (ROk, t\<lparr>ipa_users := (ipa_users t)(py_str uid \<mapsto>
                 \<lparr>nsaccountlock = Some False,
                  user_attrs = [(''givenname'', givenname), (''sn'', sn), (''cn'', cn)] @ params\<rparr>)\<rparr>))"
| "ipa_apply (UserMod k params) t =
     (case ipa_users t k of
        None \<Rightarrow> Inl NotFound
      | Some e \<Rightarrow>
          Inr (ROk, t\<lparr>ipa_users := (ipa_users t)(k \<mapsto> e\<lparr>user_attrs := params @ user_attrs e\<rparr>)\<rparr>))"
| "ipa_apply (UserDisable k) t =
     (case ipa_users t k of
        None \<Rightarrow> Inl NotFound
      | Some e \<Rightarrow> Inr (ROk, t\<lparr>ipa_users := (ipa_users t)(k \<mapsto> e\<lparr>nsaccountlock := Some True\<rparr>)\<rparr>))"
| "ipa_apply (UserEnable k) t =
     (case ipa_users t k of
        None \<Rightarrow> Inl NotFound
      | Some e \<Rightarrow> Inr (ROk, t\<lparr>ipa_users := (ipa_users t)(k \<mapsto> e\<lparr>nsaccountlock := Some False\<rparr>)\<rparr>))"
| "ipa_apply (GroupShow k) t =
     (case ipa_groups t k of None \<Rightarrow> Inl NotFound | Some g \<Rightarrow> Inr (RGroup g, t))"
| "ipa_apply (GroupAdd k params) t =
     (case ipa_groups t k of
        Some g \<Rightarrow> Inl DuplicateEntry
      | None \<Rightarrow>
          Inr (ROk, t\<lparr>ipa_groups := (ipa_groups t)(k \<mapsto>
                 \<lparr>member_user = [], member_group = [], group_attrs = params\<rparr>)\<rparr>))"
| "ipa_apply (GroupAddMember k kind m) t =
     (case ipa_groups t k of
        None \<Rightarrow> Inl NotFound
      | Some g \<Rightarrow>
          Inr (ROk, t\<lparr>ipa_groups := (ipa_groups t)(k \<mapsto>
                 (case kind of
                    MUser \<Rightarrow>
                      if m \<in> set (member_user g) then g
                      else g\<lparr>member_user := member_user g @ [m]\<rparr>
                  | MGroup \<Rightarrow>
                      if m \<in> set (member_group g) then g
                      else g\<lparr>member_group := member_group g @ [m]\<rparr>))\<rparr>))"
| "ipa_apply (IdrangeShow n) t =
     (if n \<in> set (ipa_idranges t) then Inr (ROk, t) else Inl NotFound)"
| "ipa_apply (IdrangeAdd n base_id range_size base_rid secondary_base_rid) t =
     (if n \<in> set (ipa_idranges t) then Inl DuplicateEntry
      else Inr (ROk, t\<lparr>ipa_idranges := ipa_idranges t @ [n]\<rparr>))"

subsection \<open>Run state\<close>

record stats =
  users_created :: nat
  users_updated :: nat
  users_skipped :: nat
  users_disabled :: nat
  users_enabled :: nat
  groups_created :: nat
  groups_updated :: nat
  memberships_added :: nat

text \<open>The log records of level INFO and above, the level the tool logs at by default.\<close>

datatype event =
    DryRunMode
  | ConnectedToAD | FailedToConnectAD | ConnectedToIPA | FailedToConnectIPA
  | IdRangeExists | CreatingIdRange int | CreatedIdRange int | RestartRecommended
  | CouldNotEnsureIdRange
  | StartingUserSync
  | WouldUpdateUser string bool | DisabledUser string | EnabledUser string
  | UpdatedUser string bool
  | WouldCreateUser string bool | CreatedUserDisabled string | CreatedUser string
  | FailedToSyncUser string
  | StartingGroupSync
  | WouldUpdateGroup string | UpdatedGroup string
  | WouldCreateGroup string | CreatedGroup string
  | FailedToSyncGroup string
  | StartingMembershipSync
  | WouldAddUser string string | AddedUser string string | FailedToAddUser string string
  | WouldAddGroup string string | AddedGroup string string | FailedToAddGroup string string
  | FailedToSyncMemberships string
  | SyncSummary stats
  | Disconnected

text \<open>
  The state a run threads through: the target directory, \<open>self.stats\<close>, the calls made
  to the target so far (in order, reads included) and the log.
\<close>

record run =
  target :: ipa
  run_stats :: stats
  calls :: "ipa_call list"
  logged :: "event list"

definition emit :: "event \<Rightarrow> run \<Rightarrow> run" where
  "emit e r = r\<lparr>logged := logged r @ [e]\<rparr>"

text \<open>
  One call of \<open>self.ipa_client\<close>: recorded, then refused by the server or answered by
  the directory. \<open>Inl\<close> is the exception the call raises.
\<close>

definition invoke :: "ipa_call \<Rightarrow> run \<Rightarrow> (ipa_error + ipa_reply) \<times> run" where
  "invoke c r =
     (let r1 = r\<lparr>calls := calls r @ [c]\<rparr> in
      if ipa_rejects (target r) c then (Inl ServerError, r1)
      else case ipa_apply c (target r) of
             Inl e \<Rightarrow> (Inl e, r1)
           | Inr (reply, t) \<Rightarrow> (Inr reply, r1\<lparr>target := t\<rparr>))"

definition count :: "(stats \<Rightarrow> stats) \<Rightarrow> run \<Rightarrow> run" where
  "count f r = r\<lparr>run_stats := f (run_stats r)\<rparr>"

text \<open>Sequencing: an exception of the first step skips the rest.\<close>

definition and_then ::
  "(ipa_error + 'a) \<times> run \<Rightarrow> ('a \<Rightarrow> run \<Rightarrow> (ipa_error + 'b) \<times> run) \<Rightarrow> (ipa_error + 'b) \<times> run" where
  "and_then m f = (case m of (Inl e, r) \<Rightarrow> (Inl e, r) | (Inr x, r) \<Rightarrow> f x r)"

definition user_show :: "string \<Rightarrow> run \<Rightarrow> (ipa_error + ipa_user_entry) \<times> run" where
  "user_show k r =
     and_then (invoke (UserShow k) r)
       (\<lambda>reply r1. case reply of RUser e \<Rightarrow> (Inr e, r1) | _ \<Rightarrow> (Inl ServerError, r1))"

definition group_show :: "string \<Rightarrow> run \<Rightarrow> (ipa_error + ipa_group_entry) \<times> run" where
  "group_show k r =
     and_then (invoke (GroupShow k) r)
       (\<lambda>reply r1. case reply of RGroup g \<Rightarrow> (Inr g, r1) | _ \<Rightarrow> (Inl ServerError, r1))"

subsection \<open>Principal reconciler: sync\_users\<close>

text \<open>The keyword arguments built from the mapped attributes, in the order of the source.\<close>

definition pick_params :: "(string \<rightharpoonup> atom) \<Rightarrow> string list \<Rightarrow> (string \<times> atom) list" where
  "pick_params ipa_user keys =
     concat (map (\<lambda>k. case ipa_user k of None \<Rightarrow> [] | Some v \<Rightarrow> [(''o_'' @ k, v)]) keys)"

definition user_mod_params :: "(string \<rightharpoonup> atom) \<Rightarrow> (string \<times> atom) list" where
  "user_mod_params ipa_user =
     pick_params ipa_user
       [''givenname'', ''sn'', ''mail'', ''telephonenumber'', ''title'', ''uidnumber'',
        ''gidnumber'', ''loginshell'', ''homedirectory'']"

definition user_add_params :: "(string \<rightharpoonup> atom) \<Rightarrow> (string \<times> atom) list" where
  "user_add_params ipa_user =
     pick_params ipa_user
       [''mail'', ''telephonenumber'', ''title'', ''uidnumber'', ''gidnumber'', ''loginshell'',
        ''homedirectory'']"

text \<open>\<open>'nsaccountlock' in existing and existing['nsaccountlock']\<close>\<close>

definition ipa_is_disabled :: "ipa_user_entry \<Rightarrow> bool" where
  "ipa_is_disabled existing = (case nsaccountlock existing of None \<Rightarrow> False | Some b \<Rightarrow> b)"

text \<open>The status update of an existing user in a live run (the last part of the \<open>try\<close> block).\<close>

definition update_status :: "bool \<Rightarrow> string \<Rightarrow> bool \<Rightarrow> ipa_user_entry \<Rightarrow> run \<Rightarrow> (ipa_error + unit) \<times> run" where
  "update_status force username is_disabled existing r =
     (if is_disabled \<and> \<not> ipa_is_disabled existing then
        and_then (invoke (UserDisable username) r)
          (\<lambda>_ r1. (Inr (), count (\<lambda>s. s\<lparr>users_disabled := users_disabled s + 1\<rparr>)
                             (emit (DisabledUser username) r1)))
      else if \<not> is_disabled \<and> ipa_is_disabled existing then
        and_then (invoke (UserEnable username) r)
          (\<lambda>_ r1. (Inr (), count (\<lambda>s. s\<lparr>users_enabled := users_enabled s + 1\<rparr>)
                             (emit (EnabledUser username) r1)))
      else (Inr (), if force then emit (UpdatedUser username is_disabled) r else r))"

text \<open>The \<open>try\<close> block of one user: look the user up and update it.\<close>

definition sync_user_try ::
  "bool \<Rightarrow> bool \<Rightarrow> string \<Rightarrow> (string \<rightharpoonup> atom) \<Rightarrow> bool \<Rightarrow> run \<Rightarrow> (ipa_error + unit) \<times> run" where
  "sync_user_try dry_run force username ipa_user is_disabled r =
     and_then (user_show username r)
       (\<lambda>existing r1.
          and_then
            (if dry_run then (Inr (), emit (WouldUpdateUser username is_disabled) r1)
             else
               and_then
                 (if force \<and> user_mod_params ipa_user \<noteq> []
                  then invoke (UserMod username (user_mod_params ipa_user)) r1
                  else (Inr ROk, r1))
                 (\<lambda>_ r2. update_status force username is_disabled existing r2))
            (\<lambda>_ r3. (Inr (), count (\<lambda>s. s\<lparr>users_updated := users_updated s + 1\<rparr>) r3)))"

text \<open>
  The handler \<open>except NotFound\<close> of one user: create it. An exception raised here is
  not caught by the sibling handler \<open>except Exception\<close>; it leaves the loop.
\<close>

definition sync_user_create ::
  "bool \<Rightarrow> string \<Rightarrow> (string \<rightharpoonup> atom) \<Rightarrow> bool \<Rightarrow> run \<Rightarrow> (ipa_error + unit) \<times> run" where
  "sync_user_create dry_run username ipa_user is_disabled r =
     and_then
       (if dry_run then (Inr (), emit (WouldCreateUser username is_disabled) r)
        else
          let uid = (case ipa_user ''uid'' of None \<Rightarrow> AStr username | Some v \<Rightarrow> v);
              givenname = (case ipa_user ''givenname'' of None \<Rightarrow> AStr username | Some v \<Rightarrow> v);
              sn = (case ipa_user ''sn'' of None \<Rightarrow> AStr username | Some v \<Rightarrow> v);
              cn = (case ipa_user ''cn'' of
                      None \<Rightarrow> AStr (py_str givenname @ '' '' @ py_str sn)
                    | Some v \<Rightarrow> v)
          in
          and_then (invoke (UserAdd uid givenname sn cn (user_add_params ipa_user)) r)
            (\<lambda>_ r1.
               if is_disabled then
                 and_then (invoke (UserDisable username) r1)
                   (\<lambda>_ r2. (Inr (), emit (CreatedUserDisabled username) r2))
               else (Inr (), emit (CreatedUser username) r1)))
       (\<lambda>_ r3. (Inr (), count (\<lambda>s. s\<lparr>users_created := users_created s + 1\<rparr>) r3))"

text \<open>One iteration of the loop of \<open>sync_users\<close>.\<close>

definition sync_user :: "bool \<Rightarrow> bool \<Rightarrow> config \<Rightarrow> ad_attrs \<Rightarrow> run \<Rightarrow> (ipa_error + unit) \<times> run" where
  "sync_user dry_run force cfg ad_user r =
     (let username = sam_account_name ad_user in
      if username = [] \<or> \<not> should_sync_user cfg username
      then (Inr (), count (\<lambda>s. s\<lparr>users_skipped := users_skipped s + 1\<rparr>) r)
      else
        let ipa_user = map_user_attributes cfg ad_user;
            is_disabled = is_disabled_of ad_user
        in case sync_user_try dry_run force username ipa_user is_disabled r of
             (Inr u, r1) \<Rightarrow> (Inr (), r1)
           | (Inl e, r1) \<Rightarrow>
               if e = NotFound then sync_user_create dry_run username ipa_user is_disabled r1
               else (Inr (), emit (FailedToSyncUser username) r1))"

fun sync_users_loop :: "bool \<Rightarrow> bool \<Rightarrow> config \<Rightarrow> ad_attrs list \<Rightarrow> run \<Rightarrow> (ipa_error + unit) \<times> run" where
  "sync_users_loop dry_run force cfg [] r = (Inr (), r)"
| "sync_users_loop dry_run force cfg (ad_user # rest) r =
     and_then (sync_user dry_run force cfg ad_user r)
       (\<lambda>_ r1. sync_users_loop dry_run force cfg rest r1)"

definition sync_users :: "bool \<Rightarrow> bool \<Rightarrow> config \<Rightarrow> ad_attrs list \<Rightarrow> run \<Rightarrow> (ipa_error + unit) \<times> run" where
  "sync_users dry_run force cfg snapshot_users r =
     sync_users_loop dry_run force cfg snapshot_users (emit StartingUserSync r)"

subsection \<open>Group reconciler: sync\_groups\<close>

definition group_add_params :: "ad_attrs \<Rightarrow> (string \<times> ad_value) list" where
  "group_add_params attrs =
     (let description =
            (case attrs ''description'' of
               None \<Rightarrow> AStr []
             | Some (One a) \<Rightarrow> a
             | Some (Many xs) \<Rightarrow> (case xs of [] \<Rightarrow> AStr [] | a # _ \<Rightarrow> a))
      in (if truthy_atom description then [(''o_description'', One description)] else []) @
         (case attrs ''gidNumber'' of None \<Rightarrow> [] | Some v \<Rightarrow> [(''o_gidnumber'', v)]))"

definition sync_group_try :: "bool \<Rightarrow> bool \<Rightarrow> string \<Rightarrow> run \<Rightarrow> (ipa_error + unit) \<times> run" where
  "sync_group_try dry_run force groupname r =
     and_then (group_show groupname r)
       (\<lambda>existing r1.
          if \<not> force
          then (Inr (), count (\<lambda>s. s\<lparr>groups_updated := groups_updated s + 1\<rparr>) r1)
          else (Inr (), count (\<lambda>s. s\<lparr>groups_updated := groups_updated s + 1\<rparr>)
                          (emit (if dry_run then WouldUpdateGroup groupname
                                 else UpdatedGroup groupname) r1)))"

definition sync_group_create :: "bool \<Rightarrow> string \<Rightarrow> ad_attrs \<Rightarrow> run \<Rightarrow> (ipa_error + unit) \<times> run" where
  "sync_group_create dry_run groupname ad_group r =
     and_then
       (if dry_run then (Inr (), emit (WouldCreateGroup groupname) r)
        else
          and_then (invoke (GroupAdd groupname (group_add_params ad_group)) r)
            (\<lambda>_ r1. (Inr (), emit (CreatedGroup groupname) r1)))
       (\<lambda>_ r2. (Inr (), count (\<lambda>s. s\<lparr>groups_created := groups_created s + 1\<rparr>) r2))"

text \<open>One iteration of the loop of \<open>sync_groups\<close>.\<close>

definition sync_group :: "bool \<Rightarrow> bool \<Rightarrow> config \<Rightarrow> ad_attrs \<Rightarrow> run \<Rightarrow> (ipa_error + unit) \<times> run" where
  "sync_group dry_run force cfg ad_group r =
     (let groupname = sam_account_name ad_group in
      if groupname = [] \<or> \<not> should_sync_group cfg groupname then (Inr (), r)
      else
        let groupname = sanitize groupname
        in case sync_group_try dry_run force groupname r of
             (Inr u, r1) \<Rightarrow> (Inr (), r1)
           | (Inl e, r1) \<Rightarrow>
               if e = NotFound then sync_group_create dry_run groupname ad_group r1
               else (Inr (), emit (FailedToSyncGroup groupname) r1))"

fun sync_groups_loop :: "bool \<Rightarrow> bool \<Rightarrow> config \<Rightarrow> ad_attrs list \<Rightarrow> run \<Rightarrow> (ipa_error + unit) \<times> run" where
  "sync_groups_loop dry_run force cfg [] r = (Inr (), r)"
| "sync_groups_loop dry_run force cfg (ad_group # rest) r =
     and_then (sync_group dry_run force cfg ad_group r)
       (\<lambda>_ r1. sync_groups_loop dry_run force cfg rest r1)"

definition sync_groups :: "bool \<Rightarrow> bool \<Rightarrow> config \<Rightarrow> ad_attrs list \<Rightarrow> run \<Rightarrow> (ipa_error + unit) \<times> run" where
  "sync_groups dry_run force cfg snapshot_groups r =
     sync_groups_loop dry_run force cfg snapshot_groups (emit StartingGroupSync r)"

subsection \<open>Membership reconciler: sync\_memberships\<close>

text \<open>
  The answer of the source directory to the search for one member reference: the search
  raises, finds nothing, or finds an entry (the first one is used).
\<close>

datatype ad_search_result = SearchFailed | SearchEmpty | SearchEntry ad_attrs

text \<open>\<open>str.lower()\<close> on the code points 0..255.\<close>

definition py_lower :: "string \<Rightarrow> string" where
  "py_lower s =
     map (\<lambda>c. let n = (of_char c :: nat) in
               if (65 \<le> n \<and> n \<le> 90) \<or> (192 \<le> n \<and> n \<le> 222 \<and> n \<noteq> 215)
               then char_of (n + 32) else c) s"

fun atom_lower :: "atom \<Rightarrow> string option" where
  "atom_lower (AStr s) = Some (py_lower s)"
| "atom_lower a = None"

text \<open>
  The lower-cased \<open>objectClass\<close> values of an entry; \<open>None\<close> when reading them raises
  (no such attribute, or a value that is not a string).
\<close>

definition object_classes :: "ad_attrs \<Rightarrow> string list option" where
  "object_classes entry =
     (case entry ''objectClass'' of
        None \<Rightarrow> None
      | Some (One a) \<Rightarrow> (case atom_lower a of None \<Rightarrow> None | Some c \<Rightarrow> Some [c])
      | Some (Many xs) \<Rightarrow>
          if list_all (\<lambda>a. atom_lower a \<noteq> None) xs then Some (map (\<lambda>a. the (atom_lower a)) xs)
          else None)"

definition member_refs :: "ad_attrs \<Rightarrow> atom list" where
  "member_refs attrs =
     (case attrs ''member'' of
        None \<Rightarrow> []
      | Some (Many xs) \<Rightarrow> xs
      | Some (One a) \<Rightarrow> if truthy_atom a then [a] else [])"

text \<open>
  A Python \<open>set\<close> of names is a list without repetition; the order in which the code
  iterates over a set is not fixed by the language, the model takes insertion order.
\<close>

definition set_add :: "string list \<Rightarrow> string \<Rightarrow> string list" where
  "set_add xs x = (if x \<in> set xs then xs else xs @ [x])"

fun resolve_members ::
  "(string \<Rightarrow> ad_search_result) \<Rightarrow> atom list \<Rightarrow> string list \<times> string list \<Rightarrow> string list \<times> string list" where
  "resolve_members search [] names = names"
| "resolve_members search (member_dn # rest) (ad_usernames, ad_groupnames) =
     resolve_members search rest
       (case search (py_str member_dn) of
          SearchFailed \<Rightarrow> (ad_usernames, ad_groupnames)
        | SearchEmpty \<Rightarrow> (ad_usernames, ad_groupnames)
        | SearchEntry entry \<Rightarrow>
            if sam_account_name entry = [] then (ad_usernames, ad_groupnames)
            else (case object_classes entry of
                    None \<Rightarrow> (ad_usernames, ad_groupnames)
                  | Some obj_classes \<Rightarrow>
                      if ''group'' \<in> set obj_classes
                      then (ad_usernames, set_add ad_groupnames (sam_account_name entry))
                      else (set_add ad_usernames (sam_account_name entry), ad_groupnames)))"

fun add_user_members :: "bool \<Rightarrow> string \<Rightarrow> string list \<Rightarrow> run \<Rightarrow> run" where
  "add_user_members dry_run groupname [] r = r"
| "add_user_members dry_run groupname (username # rest) r =
     add_user_members dry_run groupname rest
       (if dry_run then emit (WouldAddUser username groupname) r
        else case invoke (GroupAddMember groupname MUser username) r of
               (Inl e, r1) \<Rightarrow> emit (FailedToAddUser username groupname) r1
             | (Inr reply, r1) \<Rightarrow>
                 count (\<lambda>s. s\<lparr>memberships_added := memberships_added s + 1\<rparr>)
                   (emit (AddedUser username groupname) r1))"

fun add_group_members :: "bool \<Rightarrow> string \<Rightarrow> string list \<Rightarrow> run \<Rightarrow> run" where
  "add_group_members dry_run groupname [] r = r"
| "add_group_members dry_run groupname (member_groupname # rest) r =
     add_group_members dry_run groupname rest
       (if dry_run then emit (WouldAddGroup member_groupname groupname) r
        else
          let group_to_add = sanitize member_groupname
          in case invoke (GroupAddMember groupname MGroup group_to_add) r of
               (Inl e, r1) \<Rightarrow> emit (FailedToAddGroup member_groupname groupname) r1
             | (Inr reply, r1) \<Rightarrow>
                 count (\<lambda>s. s\<lparr>memberships_added := memberships_added s + 1\<rparr>)
                   (emit (AddedGroup group_to_add groupname) r1))"

text \<open>One iteration of the loop of \<open>sync_memberships\<close>.\<close>

definition sync_membership ::
  "bool \<Rightarrow> config \<Rightarrow> (string \<Rightarrow> ad_search_result) \<Rightarrow> ad_attrs \<Rightarrow> run \<Rightarrow> run" where
  "sync_membership dry_run cfg search ad_group r =
     (let groupname = sam_account_name ad_group in
      if groupname = [] \<or> \<not> should_sync_group cfg groupname then r
      else
        let groupname = sanitize groupname;
            names = resolve_members search (member_refs ad_group) ([], []);
            ad_usernames = fst names;
            ad_groupnames = snd names
        in case group_show groupname r of
             (Inl e, r1) \<Rightarrow> emit (FailedToSyncMemberships groupname) r1
           | (Inr ipa_group, r1) \<Rightarrow>
               add_group_members dry_run groupname
                 (filter (\<lambda>g. g \<notin> set (member_group ipa_group)) ad_groupnames)
                 (add_user_members dry_run groupname
                    (filter (\<lambda>u. u \<notin> set (member_user ipa_group)) ad_usernames) r1))"

fun sync_memberships_loop ::
  "bool \<Rightarrow> config \<Rightarrow> (string \<Rightarrow> ad_search_result) \<Rightarrow> ad_attrs list \<Rightarrow> run \<Rightarrow> run" where
  "sync_memberships_loop dry_run cfg search [] r = r"
| "sync_memberships_loop dry_run cfg search (ad_group # rest) r =
     sync_memberships_loop dry_run cfg search rest (sync_membership dry_run cfg search ad_group r)"

definition sync_memberships ::
  "bool \<Rightarrow> config \<Rightarrow> (string \<Rightarrow> ad_search_result) \<Rightarrow> ad_attrs list \<Rightarrow> run \<Rightarrow> run" where
  "sync_memberships dry_run cfg search snapshot_groups r =
     sync_memberships_loop dry_run cfg search snapshot_groups (emit StartingMembershipSync r)"

subsection \<open>Orchestrator: ensure\_id\_range and sync\<close>

text \<open>
  The source side of a run: whether the bind succeeds, the entries \<open>get_ad_users\<close> and
  \<open>get_ad_groups\<close> return, and the answers to the member searches.
\<close>

record source =
  ad_ok :: bool
  ad_users :: "ad_attrs list"
  ad_groups :: "ad_attrs list"
  ad_search :: "string \<Rightarrow> ad_search_result"

text \<open>\<open>ensure_id_range\<close> takes no \<open>dry_run\<close> argument and never raises.\<close>

definition ensure_id_range :: "config \<Rightarrow> run \<Rightarrow> run" where
  "ensure_id_range cfg r =
     (let id_range_base = cfg_id_range_base cfg;
          range_name = ''AD_SYNC_RANGE'';
          range_size = 200000
      in case invoke (IdrangeShow range_name) r of
           (Inr reply, r1) \<Rightarrow> emit IdRangeExists r1
         | (Inl e, r1) \<Rightarrow>
             if e = NotFound then
               (let r2 = emit (CreatingIdRange id_range_base) r1;
                    rid_base = (id_range_base mod 1000000000) div 1000;
                    secondary_rid_base = 100000000 + rid_base
                in case invoke (IdrangeAdd range_name id_range_base range_size rid_base
                                  secondary_rid_base) r2 of
                     (Inr reply, r3) \<Rightarrow> emit RestartRecommended (emit (CreatedIdRange id_range_base) r3)
                   | (Inl e2, r3) \<Rightarrow> emit CouldNotEnsureIdRange r3)
             else emit CouldNotEnsureIdRange r1)"

text \<open>The \<open>try\<close> block of \<open>sync\<close>: the three phases in order, then the summary.\<close>

definition sync_phases ::
  "bool \<Rightarrow> bool \<Rightarrow> bool \<Rightarrow> config \<Rightarrow> source \<Rightarrow> run \<Rightarrow> (ipa_error + bool) \<times> run" where
  "sync_phases dry_run force_users force_groups cfg src r =
     and_then
       (if cfg_sync_users cfg then sync_users dry_run force_users cfg (ad_users src) r
        else (Inr (), r))
       (\<lambda>_ r1.
          and_then
            (if cfg_sync_groups cfg then sync_groups dry_run force_groups cfg (ad_groups src) r1
             else (Inr (), r1))
            (\<lambda>_ r2.
               let r3 = (if cfg_sync_group_memberships cfg
                         then sync_memberships dry_run cfg (ad_search src) (ad_groups src) r2
                         else r2)
               in (Inr True, emit (SyncSummary (run_stats r3)) r3)))"

definition sync ::
  "bool \<Rightarrow> bool \<Rightarrow> bool \<Rightarrow> config \<Rightarrow> source \<Rightarrow> run \<Rightarrow> (ipa_error + bool) \<times> run" where
  "sync dry_run force_users force_groups cfg src r =
     (let r0 = (if dry_run then emit DryRunMode r else r) in
      if \<not> ad_ok src then (Inr False, emit FailedToConnectAD r0)
      else if \<not> ipa_login_ok (target r0)
      then (Inr False, emit FailedToConnectIPA (emit ConnectedToAD r0))
      else
        let r1 = ensure_id_range cfg (emit ConnectedToIPA (emit ConnectedToAD r0))
        in case sync_phases dry_run force_users force_groups cfg src r1 of
             (res, r2) \<Rightarrow> (res, emit Disconnected r2))"

subsection \<open>Vocabulary of the specification for the reconcilers\<close>

text \<open>
  The status decision of the specification: Enable iff the source is enabled and the
  target locked, Disable iff the source is disabled and the target unlocked, otherwise
  nothing to do.
\<close>

datatype status_decision = Enable | Disable | StatusNoOp

definition status_decision :: "bool \<Rightarrow> bool \<Rightarrow> status_decision" where
  "status_decision source_disabled target_locked =
     (if \<not> source_disabled \<and> target_locked then Enable
      else if source_disabled \<and> \<not> target_locked then Disable
      else StatusNoOp)"

fun status_calls :: "string \<Rightarrow> status_decision \<Rightarrow> ipa_call list" where
  "status_calls username Enable = [UserEnable username]"
| "status_calls username Disable = [UserDisable username]"
| "status_calls username StatusNoOp = []"

text \<open>
  Additive membership: every group of the first directory is still there in the second
  one, with at least the user members and group members it had.
\<close>

definition members_kept :: "ipa \<Rightarrow> ipa \<Rightarrow> bool" where
  "members_kept t t' =
     (\<forall>k g. ipa_groups t k = Some g \<longrightarrow>
        (\<exists>g'. ipa_groups t' k = Some g' \<and>
              set (member_user g) \<subseteq> set (member_user g') \<and>
              set (member_group g) \<subseteq> set (member_group g')))"

text \<open>A call that adds a member to a group.\<close>

fun is_add_member :: "ipa_call \<Rightarrow> bool" where
  "is_add_member (GroupAddMember k kind m) = True"
| "is_add_member c = False"

text \<open>
  A relation between run states that every step of the engine respects, provided the
  calls made are among the allowed ones: it is reflexive and transitive, and holds across
  an allowed call, a log record and a counter update.
\<close>

definition step_relation :: "(ipa_call \<Rightarrow> bool) \<Rightarrow> (run \<Rightarrow> run \<Rightarrow> bool) \<Rightarrow> bool" where
  "step_relation allowed R =
     ((\<forall>r. R r r) \<and>
      (\<forall>r1 r2 r3. R r1 r2 \<longrightarrow> R r2 r3 \<longrightarrow> R r1 r3) \<and>
      (\<forall>c r. allowed c \<longrightarrow> R r (snd (invoke c r))) \<and>
      (\<forall>e r. R r (emit e r)) \<and>
      (\<forall>f r. R r (count f r)))"

text \<open>The second run state has the calls of the first, then only calls of a given kind.\<close>

definition calls_extended :: "(ipa_call \<Rightarrow> bool) \<Rightarrow> run \<Rightarrow> run \<Rightarrow> bool" where
  "calls_extended P r r' = (\<exists>new. calls r' = calls r @ new \<and> (\<forall>c\<in>set new. P c))"




subsection \<open>Scenarios\<close>

text \<open>
  A configuration with the usual attribute mapping and no filters, an empty target that
  refuses no call, and the source user of the end-to-end scenario: \<open>jdoe\<close>, with
  bit \<open>0x0002\<close> of the account control set (514 = 0x202).
\<close>

definition example_config :: config where
  "example_config =
     \<lparr>cfg_id_range_base = 200000,
      user_attribute_mapping =
        [(''sAMAccountName'', ''uid''), (''givenName'', ''givenname''), (''sn'', ''sn''),
         (''mail'', ''mail'')],
      default_email_domain = None,
      user_include_filter = [], user_exclude_filter = [],
      group_include_filter = [], group_exclude_filter = [],
      cfg_sync_users = True, cfg_sync_groups = True, cfg_sync_group_memberships = True\<rparr>"

definition no_stats :: stats where
  "no_stats =
     \<lparr>users_created = 0, users_updated = 0, users_skipped = 0, users_disabled = 0,
      users_enabled = 0, groups_created = 0, groups_updated = 0, memberships_added = 0\<rparr>"

definition empty_directory :: ipa where
  "empty_directory =
     \<lparr>ipa_users = Map.empty, ipa_groups = Map.empty, ipa_idranges = [],
      ipa_rejects = (\<lambda>c. False), ipa_login_ok = True\<rparr>"

definition fresh_run :: "ipa \<Rightarrow> run" where
  "fresh_run t = \<lparr>target = t, run_stats = no_stats, calls = [], logged = []\<rparr>"

definition source_user :: "string \<Rightarrow> int \<Rightarrow> ad_attrs" where
  "source_user name uac =
     [''sAMAccountName'' \<mapsto> One (AStr name),
      ''userAccountControl'' \<mapsto> One (AInt uac),
      ''_is_disabled'' \<mapsto> One (ABool (uac_is_disabled uac))]"

definition jdoe :: ad_attrs where
  "jdoe = source_user ''jdoe'' 514"

text \<open>A target that holds one user, locked or not.\<close>

definition directory_with_user :: "string \<Rightarrow> bool \<Rightarrow> ipa" where
  "directory_with_user name locked =
     empty_directory\<lparr>ipa_users := [name \<mapsto> \<lparr>nsaccountlock = Some locked, user_attrs = []\<rparr>]\<rparr>"

text \<open>
  A source group \<open>Admins\<close> whose only member reference resolves to the group
  \<open>Domain Admins\<close>, and a target in which \<open>Admins\<close> already has the user member
  \<open>old\<close> and the group member \<open>Domain-Admins\<close>.
\<close>

definition admins :: ad_attrs where
  "admins =
     [''sAMAccountName'' \<mapsto> One (AStr ''Admins''),
      ''member'' \<mapsto> Many [AStr ''CN=Domain Admins,DC=example'']]"

definition example_search :: "string \<Rightarrow> ad_search_result" where
  "example_search dn =
     (if dn = ''CN=Domain Admins,DC=example''
      then SearchEntry [''sAMAccountName'' \<mapsto> One (AStr ''Domain Admins''),
                        ''objectClass'' \<mapsto> Many [AStr ''top'', AStr ''group'']]
      else SearchEmpty)"

definition directory_with_admins :: ipa where
  "directory_with_admins =
     empty_directory\<lparr>ipa_groups :=
       [''Admins'' \<mapsto> \<lparr>member_user = [''old''], member_group = [''Domain-Admins''],
                             group_attrs = []\<rparr>]\<rparr>"


definition example_source :: source where
  "example_source =
     \<lparr>ad_ok = True, ad_users = [jdoe], ad_groups = [admins], ad_search = example_search\<rparr>"


section \<open>Properties of the identifier mapper\<close>

subsection \<open>Reading the sub-authorities\<close>

lemma unpack_slice:
  assumes "8 + i * 4 + 4 \<le> length b"
  shows "unpack_le_u32 (take 4 (drop (8 + i * 4) b)) = Inr (sub_authority b i)"
proof -
  have len: "length (take 4 (drop (8 + i * 4) b)) = 4"
    using assms by simp
  have nth: "\<And>k. k < 4 \<Longrightarrow> take 4 (drop (8 + i * 4) b) ! k = b ! (8 + i * 4 + k)"
    using assms by simp
  show ?thesis
    unfolding unpack_le_u32_def sub_authority_def
    using len nth [of 0] nth [of 1] nth [of 2] nth [of 3] by simp
qed


lemma unpack_le_u32_error: "unpack_le_u32 x = Inl e \<Longrightarrow> e = StructError"
  by (simp add: unpack_le_u32_def split: if_splits)

lemma sub_auth_loop_ok:
  "\<forall>i\<in>set is. 8 + i * 4 + 4 \<le> length b \<Longrightarrow>
   sub_auth_loop b is acc = Inr (acc @ map (sub_authority b) is)"
  by (induction "is" arbitrary: acc) (simp_all add: unpack_slice)


lemma authority_ok:
  "8 \<le> length b \<Longrightarrow> \<exists>a. unpack_be_u64 ([0, 0] @ take 6 (drop 2 b)) = Inr a"
  by (simp add: unpack_be_u64_def)

lemma sid_to_uid_binary_ok:
  assumes "12 \<le> length b" and "1 \<le> unat (b ! 1)" and "8 + 4 * unat (b ! 1) \<le> length b"
  shows "sid_to_uid_binary b base = Inr (Some (base + int (sub_authority b (unat (b ! 1) - 1))))"
proof -
  let ?n = "unat (b ! 1)"
  have "\<forall>i\<in>set [0..<?n]. 8 + i * 4 + 4 \<le> length b"
    using assms(3) by auto
  then have loop: "sub_auth_loop b [0..<?n] [] = Inr (map (sub_authority b) [0..<?n])"
    using sub_auth_loop_ok [of "[0..<?n]" b "[]"] by simp
  have ne: "[0..<?n] \<noteq> []"
    using assms(2) by simp
  have "last (map (sub_authority b) [0..<?n]) = sub_authority b (?n - 1)"
    using ne by (simp add: last_map)
  moreover obtain a where "unpack_be_u64 ([0, 0] @ take 6 (drop 2 b)) = Inr a"
    using authority_ok [of b] assms(1) by auto
  ultimately show ?thesis
    using loop ne assms(1) by (simp add: sid_to_uid_binary_def Let_def)
qed


lemma sid_to_uid_binary_no_sub_authority:
  assumes "12 \<le> length b" and "unat (b ! 1) = 0"
  shows "sid_to_uid_binary b base = Inr None"
  using assms by (simp add: sid_to_uid_binary_def unpack_be_u64_def)

subsection \<open>Splitting, printing and parsing decimal numbers\<close>












subsection \<open>The textual form of a buffer\<close>







subsection \<open>The branches of sid\_to\_uid\<close>

lemma sid_to_uid_text:
  assumes "startswith s ''S-''" and "8 \<le> length (split_on CHR ''-'' s)"
    and "py_int (last (split_on CHR ''-'' s)) = Inr r"
  shows "sid_to_uid (SidStr s) base = Some (base + r)"
proof -
  have "s \<noteq> []" using assms(1) by (auto simp: startswith_def)
  then show ?thesis
    using assms by (simp add: sid_to_uid_def sid_to_uid_try_def falsy_def Let_def)
qed



lemma sid_to_uid_bytes:
  "sid_to_uid (SidBytes b) base =
     (if b = [] then None else case sid_to_uid_binary b base of Inl e \<Rightarrow> None | Inr r \<Rightarrow> r)"
  by (simp add: sid_to_uid_def sid_to_uid_try_def falsy_def)







subsection \<open>Claims about the identifier mapper\<close>

text \<open>
  Claim C10. A buffer of at least 12 bytes whose sub-authority count (byte 1) is zero
  yields no identity, for every base: besides the 12-byte minimum the mapper requires
  at least one sub-authority, and the rejection is a plain \<open>None\<close>, never an exception.
\<close>

theorem sid_to_uid_no_sub_authority:
  assumes "12 \<le> length b" and "b ! 1 = 0"
  shows "sid_to_uid (SidBytes b) id_range_base = None"
  using assms sid_to_uid_binary_no_sub_authority [of b id_range_base]
  by (simp add: sid_to_uid_bytes)

theorem sid_to_uid_no_sub_authority_witness:
  "12 \<le> length [1, 0, 0, 0, 0, 0, 0, 5, 21, 0, 0, 0 :: byte] \<and>
   [1, 0, 0, 0, 0, 0, 0, 5, 21, 0, 0, 0 :: byte] ! 1 = 0 \<and>
   sid_to_uid (SidBytes [1, 0, 0, 0, 0, 0, 0, 5, 21, 0, 0, 0]) 200000 = None"
  using sid_to_uid_no_sub_authority [of "[1, 0, 0, 0, 0, 0, 0, 5, 21, 0, 0, 0]" 200000]
  by simp



text \<open>
  Claim C1, as stated, fails: both identifiers below have an accepted form (a buffer of
  12 bytes declaring two sub-authorities but holding one; a textual identifier with 8
  components whose last is not a number), and the mapper yields \<open>None\<close> for them.
\<close>

theorem sid_to_uid_accepted_counterexample:
  "accepted_form (SidBytes [1, 2, 0, 0, 0, 0, 0, 5, 21, 0, 0, 0]) \<and>
   sid_to_uid (SidBytes [1, 2, 0, 0, 0, 0, 0, 5, 21, 0, 0, 0]) 1668600000 = None \<and>
   accepted_form (SidStr ''S-1-5-21-1-2-3-abc'') \<and>
   sid_to_uid (SidStr ''S-1-5-21-1-2-3-abc'') 1668600000 = None"
proof -
  have "accepted_form (SidBytes [1, 2, 0, 0, 0, 0, 0, 5, 21, 0, 0, 0])"
    by (simp add: accepted_form_def)
  moreover have "sid_to_uid (SidBytes [1, 2, 0, 0, 0, 0, 0, 5, 21, 0, 0, 0]) 1668600000 = None"
    by (simp add: sid_to_uid_def sid_to_uid_try_def sid_to_uid_binary_def falsy_def
        unpack_le_u32_def unpack_be_u64_def upt_rec Let_def)
  moreover have "accepted_form (SidStr ''S-1-5-21-1-2-3-abc'')"
    by (simp add: accepted_form_def startswith_def split_on_def)
  moreover have "sid_to_uid (SidStr ''S-1-5-21-1-2-3-abc'') 1668600000 = None"
    by (simp add: sid_to_uid_def sid_to_uid_try_def falsy_def startswith_def split_on_def
        py_int_def is_space_def is_digit_def Let_def)
  ultimately show ?thesis by blast
qed

text \<open>
  Claim C1, amended. For every identifier of an accepted form whose relative identifier
  is defined (the last textual component parses as an integer; the buffer holds all the
  sub-authorities it declares) and for every base, the mapper returns the base plus the
  relative identifier. In particular the identifier \<open>S-1-5-21-1-2-3-1105\<close> with base
  1668600000 maps to 1668601105.
\<close>

theorem sid_to_uid_accepted:
  "(accepted_form sid \<and> rid sid = Some r \<longrightarrow> sid_to_uid sid id_range_base = Some (id_range_base + r)) \<and>
   sid_to_uid (SidStr ''S-1-5-21-1-2-3-1105'') 1668600000 = Some 1668601105"
proof
  show "accepted_form sid \<and> rid sid = Some r \<longrightarrow>
        sid_to_uid sid id_range_base = Some (id_range_base + r)"
  proof
    assume h: "accepted_form sid \<and> rid sid = Some r"
    show "sid_to_uid sid id_range_base = Some (id_range_base + r)"
    proof (cases sid)
      case SidNone
      then show ?thesis using h by (simp add: accepted_form_def)
    next
      case (SidStr s)
      then have "startswith s ''S-''" and "8 \<le> length (split_on CHR ''-'' s)"
        and "py_int (last (split_on CHR ''-'' s)) = Inr r"
        using h by (auto simp: accepted_form_def rid_def split: sum.splits)
      then show ?thesis
        using SidStr by (simp add: sid_to_uid_text)
    next
      case (SidBytes b)
      then have b: "12 \<le> length b" "1 \<le> unat (b ! 1)" "8 + 4 * unat (b ! 1) \<le> length b"
        and r: "r = int (sub_authority b (unat (b ! 1) - 1))"
        using h by (auto simp: accepted_form_def rid_def split: if_splits)
      have "b \<noteq> []" using b(1) by auto
      then show ?thesis
        using SidBytes r sid_to_uid_binary_ok [OF b, of id_range_base]
        by (simp add: sid_to_uid_bytes)
    qed
  qed
next
  show "sid_to_uid (SidStr ''S-1-5-21-1-2-3-1105'') 1668600000 = Some 1668601105"
    by (simp add: sid_to_uid_def sid_to_uid_try_def falsy_def startswith_def split_on_def
        py_int_def is_space_def digits_value_def digit_val_def is_digit_def max_str_digits_def
        Let_def)
qed

theorem sid_to_uid_accepted_witness:
  "accepted_form (SidBytes [1, 2, 0, 0, 0, 0, 0, 5, 32, 0, 0, 0, 32, 2, 0, 0]) \<and>
   rid (SidBytes [1, 2, 0, 0, 0, 0, 0, 5, 32, 0, 0, 0, 32, 2, 0, 0]) = Some 544 \<and>
   sid_to_uid (SidBytes [1, 2, 0, 0, 0, 0, 0, 5, 32, 0, 0, 0, 32, 2, 0, 0]) 200000 = Some 200544"
proof -
  have a: "accepted_form (SidBytes [1, 2, 0, 0, 0, 0, 0, 5, 32, 0, 0, 0, 32, 2, 0, 0])"
    by (simp add: accepted_form_def)
  have r: "rid (SidBytes [1, 2, 0, 0, 0, 0, 0, 5, 32, 0, 0, 0, 32, 2, 0, 0]) = Some 544"
    by (simp add: rid_def sub_authority_def)
  show ?thesis
    using a r sid_to_uid_accepted
      [of "SidBytes [1, 2, 0, 0, 0, 0, 0, 5, 32, 0, 0, 0, 32, 2, 0, 0]" 544 200000]
    by simp
qed




section \<open>Properties of the reconciliation engine\<close>

subsection \<open>Bookkeeping\<close>

lemma emit_fields [simp]:
  "target (emit e r) = target r" "calls (emit e r) = calls r"
  "run_stats (emit e r) = run_stats r" "logged (emit e r) = logged r @ [e]"
  by (simp_all add: emit_def)

lemma count_fields [simp]:
  "target (count f r) = target r" "calls (count f r) = calls r"
  "run_stats (count f r) = f (run_stats r)" "logged (count f r) = logged r"
  by (simp_all add: count_def)

lemma and_then_simps [simp]:
  "and_then (Inl e, r) f = (Inl e, r)" "and_then (Inr x, r) f = f x r"
  by (simp_all add: and_then_def)

lemma invoke_fields [simp]:
  "calls (snd (invoke c r)) = calls r @ [c]"
  "run_stats (snd (invoke c r)) = run_stats r"
  "logged (snd (invoke c r)) = logged r"
  by (simp_all add: invoke_def Let_def split: sum.splits prod.splits)

lemma user_show_found:
  assumes "ipa_users (target r) k = Some e" and "\<not> ipa_rejects (target r) (UserShow k)"
  shows "user_show k r = (Inr e, r\<lparr>calls := calls r @ [UserShow k]\<rparr>)"
  using assms by (simp add: user_show_def invoke_def)


lemma group_show_found:
  assumes "ipa_groups (target r) k = Some g" and "\<not> ipa_rejects (target r) (GroupShow k)"
  shows "group_show k r = (Inr g, r\<lparr>calls := calls r @ [GroupShow k]\<rparr>)"
  using assms by (simp add: group_show_def invoke_def)

lemma invoke_rejected:
  "ipa_rejects (target r) c \<Longrightarrow> invoke c r = (Inl ServerError, r\<lparr>calls := calls r @ [c]\<rparr>)"
  by (simp add: invoke_def)

lemma invoke_user_mod:
  assumes "ipa_users (target r) k = Some e" and "\<not> ipa_rejects (target r) (UserMod k ps)"
  shows "\<exists>r'. invoke (UserMod k ps) r = (Inr ROk, r') \<and> calls r' = calls r @ [UserMod k ps] \<and>
           run_stats r' = run_stats r \<and> logged r' = logged r \<and>
           ipa_rejects (target r') = ipa_rejects (target r) \<and>
           ipa_users (target r') k \<noteq> None"
  using assms by (simp add: invoke_def)

lemma invoke_status_not_missing:
  assumes "ipa_users (target r) k \<noteq> None" and "c = UserDisable k \<or> c = UserEnable k"
  shows "fst (invoke c r) \<noteq> Inl NotFound"
  using assms by (auto simp: invoke_def Let_def split: if_splits)

subsection \<open>An existing user in a live run\<close>

lemma and_then_invoke_calls:
  assumes "\<And>x r1. calls (snd (f x r1)) = calls r1"
  shows "calls (snd (and_then (invoke c r) f)) = calls r @ [c]"
  using assms invoke_fields(1) [of c r]
  by (cases "invoke c r"; cases "fst (invoke c r)") auto

lemma and_then_invoke_not_missing:
  assumes "fst (invoke c r) \<noteq> Inl NotFound" and "\<And>x r1. fst (f x r1) \<noteq> Inl NotFound"
  shows "fst (and_then (invoke c r) f) \<noteq> Inl NotFound"
  using assms by (cases "invoke c r"; cases "fst (invoke c r)") auto

lemma update_status_calls:
  "calls (snd (update_status force username is_disabled existing r)) =
     calls r @ status_calls username (status_decision is_disabled (ipa_is_disabled existing))"
  by (simp add: update_status_def status_decision_def and_then_invoke_calls)

lemma update_status_not_missing:
  assumes "ipa_users (target r) username \<noteq> None"
  shows "fst (update_status force username is_disabled existing r) \<noteq> Inl NotFound"
  using assms
  by (simp add: update_status_def and_then_invoke_not_missing invoke_status_not_missing)

text \<open>A found user in a live run: the calls made for it.\<close>

lemma sync_user_found_calls:
  assumes scope: "sam_account_name ad_user \<noteq> []" "should_sync_user cfg (sam_account_name ad_user)"
    and found: "ipa_users (target r) (sam_account_name ad_user) = Some existing"
    and show_ok: "\<not> ipa_rejects (target r) (UserShow (sam_account_name ad_user))"
    and mod_ok: "\<not> ipa_rejects (target r)
                   (UserMod (sam_account_name ad_user) (user_mod_params (map_user_attributes cfg ad_user)))"
  shows "calls (snd (sync_user False force cfg ad_user r)) =
           calls r @ [UserShow (sam_account_name ad_user)] @
           (if force \<and> user_mod_params (map_user_attributes cfg ad_user) \<noteq> []
            then [UserMod (sam_account_name ad_user) (user_mod_params (map_user_attributes cfg ad_user))]
            else []) @
           status_calls (sam_account_name ad_user)
             (status_decision (is_disabled_of ad_user) (ipa_is_disabled existing))"
proof -
  let ?n = "sam_account_name ad_user"
  let ?ps = "user_mod_params (map_user_attributes cfg ad_user)"
  let ?d = "is_disabled_of ad_user"
  let ?r1 = "r\<lparr>calls := calls r @ [UserShow ?n]\<rparr>"
  define m where "m = (if force \<and> ?ps \<noteq> [] then invoke (UserMod ?n ?ps) ?r1 else (Inr ROk, ?r1))"
  have show_eq: "user_show ?n r = (Inr existing, ?r1)"
    using found show_ok by (rule user_show_found)
  have m: "m = (Inr ROk, snd m) \<and>
           calls (snd m) = calls r @ [UserShow ?n] @ (if force \<and> ?ps \<noteq> [] then [UserMod ?n ?ps] else []) \<and>
           ipa_users (target (snd m)) ?n \<noteq> None"
  proof (cases "force \<and> ?ps \<noteq> []")
    case True
    have "ipa_users (target ?r1) ?n = Some existing" using found by simp
    moreover have "\<not> ipa_rejects (target ?r1) (UserMod ?n ?ps)" using mod_ok by simp
    ultimately obtain r' where "invoke (UserMod ?n ?ps) ?r1 = (Inr ROk, r')"
      and "calls r' = calls ?r1 @ [UserMod ?n ?ps]" and "ipa_users (target r') ?n \<noteq> None"
      using invoke_user_mod [of ?r1 ?n existing ?ps] by blast
    then show ?thesis using True by (simp add: m_def)
  next
    case False
    then show ?thesis using found by (auto simp: m_def)
  qed
  let ?st = "update_status force ?n ?d existing (snd m)"
  have cst: "calls (snd ?st) = calls (snd m) @ status_calls ?n (status_decision ?d (ipa_is_disabled existing))"
    by (rule update_status_calls)
  have nst: "fst ?st \<noteq> Inl NotFound"
    using m by (simp add: update_status_not_missing)
  have "and_then m (\<lambda>_ r2. update_status force ?n ?d existing r2) = ?st"
    using m by (metis and_then_simps(2))
  then have try_eq: "sync_user_try False force ?n (map_user_attributes cfg ad_user) ?d r =
      and_then ?st (\<lambda>_ r3. (Inr (), count (\<lambda>s. s\<lparr>users_updated := users_updated s + 1\<rparr>) r3))"
    using show_eq by (simp add: sync_user_try_def m_def)
  have "calls (snd (sync_user False force cfg ad_user r)) = calls (snd ?st)"
    using scope try_eq nst
    by (cases ?st; cases "fst ?st") (auto simp: sync_user_def Let_def)
  then show ?thesis
    using cst m by simp
qed

subsection \<open>A missing user\<close>






text \<open>A found user in a dry run.\<close>

lemma sync_user_found_dry:
  assumes scope: "sam_account_name ad_user \<noteq> []" "should_sync_user cfg (sam_account_name ad_user)"
    and found: "ipa_users (target r) (sam_account_name ad_user) = Some existing"
    and show_ok: "\<not> ipa_rejects (target r) (UserShow (sam_account_name ad_user))"
  shows "sync_user True force cfg ad_user r =
           (Inr (), r\<lparr>run_stats := (run_stats r)\<lparr>users_updated := users_updated (run_stats r) + 1\<rparr>,
                      calls := calls r @ [UserShow (sam_account_name ad_user)],
                      logged := logged r @ [WouldUpdateUser (sam_account_name ad_user) (is_disabled_of ad_user)]\<rparr>)"
  using scope user_show_found [OF found show_ok]
  by (simp add: sync_user_def sync_user_try_def Let_def emit_def count_def)

subsection \<open>Facts about the source user of the scenarios\<close>

lemma source_user_facts [simp]:
  "sam_account_name (source_user n uac) = n"
  "is_disabled_of (source_user n uac) = uac_is_disabled uac"
  "should_sync_user example_config n"
  by (simp_all add: source_user_def sam_account_name_def is_disabled_of_def should_sync_user_def
      example_config_def)

lemma uac_examples [simp]: "uac_is_disabled 514" "\<not> uac_is_disabled 512"
  by (simp_all add: uac_is_disabled_def)

lemma mapped_source_user:
  "n \<noteq> [] \<Longrightarrow> map_user_attributes example_config (source_user n uac) = [''uid'' \<mapsto> AStr n]"
  by (simp add: map_user_attributes_def example_config_def source_user_def)

lemma jdoe_facts [simp]:
  "sam_account_name jdoe = ''jdoe''" "is_disabled_of jdoe"
  "map_user_attributes example_config jdoe = [''uid'' \<mapsto> AStr ''jdoe'']"
  by (simp_all add: jdoe_def mapped_source_user)

lemma fresh_run_fields [simp]:
  "target (fresh_run t) = t" "calls (fresh_run t) = []" "logged (fresh_run t) = []"
  "run_stats (fresh_run t) = no_stats"
  by (simp_all add: fresh_run_def)

lemma empty_directory_fields [simp]:
  "ipa_users empty_directory = Map.empty" "ipa_groups empty_directory = Map.empty"
  "ipa_idranges empty_directory = []" "\<not> ipa_rejects empty_directory c"
  "ipa_login_ok empty_directory"
  by (simp_all add: empty_directory_def)

lemma directory_with_user_fields [simp]:
  "ipa_users (directory_with_user n l) = [n \<mapsto> \<lparr>nsaccountlock = Some l, user_attrs = []\<rparr>]"
  "\<not> ipa_rejects (directory_with_user n l) c"
  by (simp_all add: directory_with_user_def)


subsection \<open>Relations that every step respects\<close>

lemma respects_refl: "step_relation A R \<Longrightarrow> R r r"
  by (simp add: step_relation_def)

lemma respects_emit: "step_relation A R \<Longrightarrow> R r0 r \<Longrightarrow> R r0 (emit e r)"
  unfolding step_relation_def by blast

lemma respects_count: "step_relation A R \<Longrightarrow> R r0 r \<Longrightarrow> R r0 (count f r)"
  unfolding step_relation_def by blast

lemma respects_invoke: "step_relation A R \<Longrightarrow> A c \<Longrightarrow> R r0 r \<Longrightarrow> R r0 (snd (invoke c r))"
  unfolding step_relation_def by blast

lemma respects_and_then:
  assumes "R r0 (snd m)" and "\<And>x r1. R r0 r1 \<Longrightarrow> R r0 (snd (f x r1))"
  shows "R r0 (snd (and_then m f))"
  using assms by (cases m; cases "fst m") auto

lemma user_show_respects:
  assumes "step_relation A R" and "A (UserShow k)" and "R r0 r"
  shows "R r0 (snd (user_show k r))"
  unfolding user_show_def
  by (rule respects_and_then) (auto intro: respects_invoke assms split: ipa_reply.splits)

lemma group_show_respects:
  assumes "step_relation A R" and "A (GroupShow k)" and "R r0 r"
  shows "R r0 (snd (group_show k r))"
  unfolding group_show_def
  by (rule respects_and_then) (auto intro: respects_invoke assms split: ipa_reply.splits)

lemma update_status_respects:
  assumes "step_relation A R" and "\<forall>c. A c" and "R r0 r"
  shows "R r0 (snd (update_status force n d e r))"
  unfolding update_status_def
  using assms(2,3)
  by (auto intro!: respects_and_then [where R = R] respects_invoke [OF assms(1)]
        respects_count [OF assms(1)] respects_emit [OF assms(1)])

lemma sync_user_try_respects:
  assumes "step_relation A R" and "\<forall>c. \<not> mutating c \<longrightarrow> A c" and "\<not> dry_run \<longrightarrow> (\<forall>c. A c)"
    and "R r0 r"
  shows "R r0 (snd (sync_user_try dry_run force n iu d r))"
proof -
  have s: "A (UserShow n)" using assms(2) by simp
  show ?thesis
    unfolding sync_user_try_def
    using assms(3,4)
    by (auto intro!: respects_and_then [where R = R] user_show_respects [OF assms(1) s]
          update_status_respects [OF assms(1)] respects_invoke [OF assms(1)]
          respects_count [OF assms(1)] respects_emit [OF assms(1)])
qed

lemma sync_user_create_respects:
  assumes "step_relation A R" and "\<not> dry_run \<longrightarrow> (\<forall>c. A c)" and "R r0 r"
  shows "R r0 (snd (sync_user_create dry_run n iu d r))"
  unfolding sync_user_create_def Let_def
  using assms(2,3)
  by (auto intro!: respects_and_then [where R = R] respects_invoke [OF assms(1)]
        respects_count [OF assms(1)] respects_emit [OF assms(1)])

lemma sync_user_respects:
  assumes "step_relation A R" and "\<forall>c. \<not> mutating c \<longrightarrow> A c" and "\<not> dry_run \<longrightarrow> (\<forall>c. A c)"
    and "R r0 r"
  shows "R r0 (snd (sync_user dry_run force cfg u r))"
proof -
  let ?n = "sam_account_name u"
  let ?t = "sync_user_try dry_run force ?n (map_user_attributes cfg u) (is_disabled_of u) r"
  have t: "R r0 (snd ?t)"
    using assms by (rule sync_user_try_respects)
  have c: "R r0 (snd (sync_user_create dry_run ?n (map_user_attributes cfg u) (is_disabled_of u) (snd ?t)))"
    using assms(1,3) t by (rule sync_user_create_respects)
  have f: "R r0 (emit (FailedToSyncUser ?n) (snd ?t))"
    using assms(1) t by (rule respects_emit)
  have k: "R r0 (count (\<lambda>s. s\<lparr>users_skipped := users_skipped s + 1\<rparr>) r)"
    using assms(1,4) by (rule respects_count)
  show ?thesis
    using t c f k
    by (cases ?t; cases "fst ?t") (auto simp: sync_user_def Let_def)
qed

lemma sync_users_loop_respects:
  assumes "step_relation A R" and "\<forall>c. \<not> mutating c \<longrightarrow> A c" and "\<not> dry_run \<longrightarrow> (\<forall>c. A c)"
    and "R r0 r"
  shows "R r0 (snd (sync_users_loop dry_run force cfg us r))"
  using assms(4)
proof (induction us arbitrary: r)
  case Nil
  then show ?case by simp
next
  case (Cons u us)
  show ?case
    unfolding sync_users_loop.simps
    by (rule respects_and_then) (auto intro: sync_user_respects [OF assms(1,2,3)] Cons)
qed

lemma sync_users_respects:
  assumes "step_relation A R" and "\<forall>c. \<not> mutating c \<longrightarrow> A c" and "\<not> dry_run \<longrightarrow> (\<forall>c. A c)"
    and "R r0 r"
  shows "R r0 (snd (sync_users dry_run force cfg us r))"
  unfolding sync_users_def
  by (rule sync_users_loop_respects [OF assms(1,2,3)]) (rule respects_emit [OF assms(1,4)])

lemma sync_group_try_respects:
  assumes "step_relation A R" and "\<forall>c. \<not> mutating c \<longrightarrow> A c" and "R r0 r"
  shows "R r0 (snd (sync_group_try dry_run force n r))"
proof -
  have s: "A (GroupShow n)" using assms(2) by simp
  show ?thesis
    unfolding sync_group_try_def
    using assms(3)
    by (auto intro!: respects_and_then [where R = R] group_show_respects [OF assms(1) s]
          respects_count [OF assms(1)] respects_emit [OF assms(1)])
qed

lemma sync_group_create_respects:
  assumes "step_relation A R" and "\<not> dry_run \<longrightarrow> (\<forall>c. A c)" and "R r0 r"
  shows "R r0 (snd (sync_group_create dry_run n g r))"
  unfolding sync_group_create_def
  using assms(2,3)
  by (auto intro!: respects_and_then [where R = R] respects_invoke [OF assms(1)]
        respects_count [OF assms(1)] respects_emit [OF assms(1)])

lemma sync_group_respects:
  assumes "step_relation A R" and "\<forall>c. \<not> mutating c \<longrightarrow> A c" and "\<not> dry_run \<longrightarrow> (\<forall>c. A c)"
    and "R r0 r"
  shows "R r0 (snd (sync_group dry_run force cfg g r))"
proof -
  let ?n = "sanitize (sam_account_name g)"
  let ?t = "sync_group_try dry_run force ?n r"
  have t: "R r0 (snd ?t)"
    using assms(1,2,4) by (rule sync_group_try_respects)
  have c: "R r0 (snd (sync_group_create dry_run ?n g (snd ?t)))"
    using assms(1,3) t by (rule sync_group_create_respects)
  have f: "R r0 (emit (FailedToSyncGroup ?n) (snd ?t))"
    using assms(1) t by (rule respects_emit)
  show ?thesis
    using t c f assms(4)
    by (cases ?t; cases "fst ?t") (auto simp: sync_group_def Let_def)
qed

lemma sync_groups_loop_respects:
  assumes "step_relation A R" and "\<forall>c. \<not> mutating c \<longrightarrow> A c" and "\<not> dry_run \<longrightarrow> (\<forall>c. A c)"
    and "R r0 r"
  shows "R r0 (snd (sync_groups_loop dry_run force cfg gs r))"
  using assms(4)
proof (induction gs arbitrary: r)
  case Nil
  then show ?case by simp
next
  case (Cons g gs)
  show ?case
    unfolding sync_groups_loop.simps
    by (rule respects_and_then) (auto intro: sync_group_respects [OF assms(1,2,3)] Cons)
qed

lemma sync_groups_respects:
  assumes "step_relation A R" and "\<forall>c. \<not> mutating c \<longrightarrow> A c" and "\<not> dry_run \<longrightarrow> (\<forall>c. A c)"
    and "R r0 r"
  shows "R r0 (snd (sync_groups dry_run force cfg gs r))"
  unfolding sync_groups_def
  by (rule sync_groups_loop_respects [OF assms(1,2,3)]) (rule respects_emit [OF assms(1,4)])

text \<open>The membership reconciler makes no call but look-ups and member additions.\<close>

lemma add_user_members_respects:
  assumes "step_relation A R" and "\<not> dry_run \<longrightarrow> (\<forall>c. is_add_member c \<longrightarrow> A c)" and "R r0 r"
  shows "R r0 (add_user_members dry_run g us r)"
proof (cases dry_run)
  case True
  have "R r0 (add_user_members True g us r)"
    using assms(3)
    by (induction us arbitrary: r) (auto intro!: respects_emit [OF assms(1)])
  then show ?thesis using True by simp
next
  case False
  have "R r0 (add_user_members False g us r)"
    using assms(3)
  proof (induction us arbitrary: r)
    case Nil
    then show ?case by simp
  next
    case (Cons u us)
    let ?c = "GroupAddMember g MUser u"
    have a: "A ?c" using False assms(2) by simp
    have i: "R r0 (snd (invoke ?c r))"
      using assms(1) a Cons.prems by (rule respects_invoke)
    show ?case
      using i
      by (cases "invoke ?c r"; cases "fst (invoke ?c r)")
         (auto intro!: Cons.IH respects_emit [OF assms(1)] respects_count [OF assms(1)])
  qed
  then show ?thesis using False by simp
qed

lemma add_group_members_respects:
  assumes "step_relation A R" and "\<not> dry_run \<longrightarrow> (\<forall>c. is_add_member c \<longrightarrow> A c)" and "R r0 r"
  shows "R r0 (add_group_members dry_run g ms r)"
proof (cases dry_run)
  case True
  have "R r0 (add_group_members True g ms r)"
    using assms(3)
    by (induction ms arbitrary: r) (auto intro!: respects_emit [OF assms(1)])
  then show ?thesis using True by simp
next
  case False
  have "R r0 (add_group_members False g ms r)"
    using assms(3)
  proof (induction ms arbitrary: r)
    case Nil
    then show ?case by simp
  next
    case (Cons m ms)
    let ?c = "GroupAddMember g MGroup (sanitize m)"
    have a: "A ?c" using False assms(2) by simp
    have i: "R r0 (snd (invoke ?c r))"
      using assms(1) a Cons.prems by (rule respects_invoke)
    show ?case
      using i
      by (cases "invoke ?c r"; cases "fst (invoke ?c r)")
         (auto simp: Let_def intro!: Cons.IH respects_emit [OF assms(1)] respects_count [OF assms(1)])
  qed
  then show ?thesis using False by simp
qed

lemma sync_membership_respects:
  assumes "step_relation A R" and "\<forall>c. \<not> mutating c \<longrightarrow> A c"
    and "\<not> dry_run \<longrightarrow> (\<forall>c. is_add_member c \<longrightarrow> A c)" and "R r0 r"
  shows "R r0 (sync_membership dry_run cfg search g r)"
proof -
  let ?n = "sanitize (sam_account_name g)"
  have s: "A (GroupShow ?n)" using assms(2) by simp
  have t: "R r0 (snd (group_show ?n r))"
    using assms(1) s assms(4) by (rule group_show_respects)
  show ?thesis
    using t assms(4)
    by (cases "group_show ?n r"; cases "fst (group_show ?n r)")
       (auto simp: sync_membership_def Let_def
          intro!: add_group_members_respects [OF assms(1,3)] add_user_members_respects [OF assms(1,3)]
            respects_emit [OF assms(1)])
qed

lemma sync_memberships_loop_respects:
  assumes "step_relation A R" and "\<forall>c. \<not> mutating c \<longrightarrow> A c"
    and "\<not> dry_run \<longrightarrow> (\<forall>c. is_add_member c \<longrightarrow> A c)" and "R r0 r"
  shows "R r0 (sync_memberships_loop dry_run cfg search gs r)"
  using assms(4)
  by (induction gs arbitrary: r) (auto intro: sync_membership_respects [OF assms(1,2,3)])

lemma sync_memberships_respects:
  assumes "step_relation A R" and "\<forall>c. \<not> mutating c \<longrightarrow> A c"
    and "\<not> dry_run \<longrightarrow> (\<forall>c. is_add_member c \<longrightarrow> A c)" and "R r0 r"
  shows "R r0 (sync_memberships dry_run cfg search gs r)"
  unfolding sync_memberships_def
  by (rule sync_memberships_loop_respects [OF assms(1,2,3)]) (rule respects_emit [OF assms(1,4)])

lemma sync_phases_respects:
  assumes "step_relation A R" and "\<forall>c. \<not> mutating c \<longrightarrow> A c" and "\<not> dry_run \<longrightarrow> (\<forall>c. A c)"
    and "R r0 r"
  shows "R r0 (snd (sync_phases dry_run fu fg cfg src r))"
proof -
  have m: "\<not> dry_run \<longrightarrow> (\<forall>c. is_add_member c \<longrightarrow> A c)" using assms(3) by simp
  show ?thesis
    unfolding sync_phases_def Let_def
    using assms(4)
    by (auto intro!: respects_and_then [where R = R] sync_users_respects [OF assms(1,2,3)]
          sync_groups_respects [OF assms(1,2,3)] sync_memberships_respects [OF assms(1,2) m]
          respects_emit [OF assms(1)])
qed

lemma ensure_id_range_respects:
  assumes "step_relation A R" and "\<forall>c. A c" and "R r0 r"
  shows "R r0 (ensure_id_range cfg r)"
proof -
  have a: "A c" for c using assms(2) by simp
  let ?s = "invoke (IdrangeShow ''AD_SYNC_RANGE'') r"
  have s: "R r0 (snd ?s)"
    using assms(1) a assms(3) by (rule respects_invoke)
  have add: "R r0 (snd (invoke c (emit e (snd ?s))))" for c e
    by (intro respects_invoke [OF assms(1) a] respects_emit [OF assms(1)] s)
  show ?thesis
    unfolding ensure_id_range_def Let_def
    using s add
    by (cases ?s; cases "fst ?s")
       (auto intro!: respects_emit [OF assms(1)] split: prod.splits sum.splits
          dest!: arg_cong [where f = snd])
qed

lemma sync_respects:
  assumes "step_relation A R" and "\<forall>c. A c" and "R r0 r"
  shows "R r0 (snd (sync dry_run fu fg cfg src r))"
proof -
  have p: "R r0 r1 \<Longrightarrow> R r0 (snd (sync_phases dry_run fu fg cfg src r1))" for r1
    using assms(1,2) by (auto intro: sync_phases_respects)
  show ?thesis
    unfolding sync_def Let_def
    using assms(3)
    by (auto split: prod.splits dest!: arg_cong [where f = snd]
          intro!: respects_emit [OF assms(1)] ensure_id_range_respects [OF assms(1,2)]
          simp: )
       (metis p respects_emit [OF assms(1)] ensure_id_range_respects [OF assms(1,2)] snd_conv)+
qed

subsection \<open>Three such relations\<close>

lemma members_kept_refl: "members_kept t t"
  by (simp add: members_kept_def)

lemma members_kept_trans: "members_kept t1 t2 \<Longrightarrow> members_kept t2 t3 \<Longrightarrow> members_kept t1 t3"
  unfolding members_kept_def by (meson subset_trans)

lemma ipa_apply_members_kept:
  "ipa_apply c t = Inr (reply, t') \<Longrightarrow> members_kept t t'"
  by (cases c)
     (auto simp: members_kept_def split: option.splits if_splits member_kind.splits)

lemma invoke_members_kept: "members_kept (target r) (target (snd (invoke c r)))"
proof (cases "ipa_rejects (target r) c")
  case True
  then show ?thesis by (simp add: invoke_def members_kept_refl)
next
  case False
  show ?thesis
  proof (cases "ipa_apply c (target r)")
    case (Inl e)
    then show ?thesis using False by (simp add: invoke_def members_kept_refl)
  next
    case (Inr p)
    then obtain reply t' where "ipa_apply c (target r) = Inr (reply, t')"
      by (cases p) auto
    then show ?thesis
      using False ipa_apply_members_kept [of c "target r" reply t'] by (simp add: invoke_def)
  qed
qed

lemma step_relation_members_kept:
  "step_relation (\<lambda>c. True) (\<lambda>r r'. members_kept (target r) (target r'))"
  unfolding step_relation_def
  using members_kept_refl members_kept_trans invoke_members_kept
  by auto

lemma calls_extended_refl: "calls_extended P r r"
  by (simp add: calls_extended_def)

lemma calls_extended_trans:
  assumes "calls_extended P r1 r2" and "calls_extended P r2 r3"
  shows "calls_extended P r1 r3"
proof -
  from assms obtain n1 n2 where "calls r2 = calls r1 @ n1" "\<forall>c\<in>set n1. P c"
    "calls r3 = calls r2 @ n2" "\<forall>c\<in>set n2. P c"
    unfolding calls_extended_def by blast
  then have "calls r3 = calls r1 @ (n1 @ n2) \<and> (\<forall>c\<in>set (n1 @ n2). P c)"
    by auto
  then show ?thesis
    unfolding calls_extended_def by blast
qed

lemma step_relation_calls_extended: "step_relation P (calls_extended P)"
proof -
  have "calls_extended P r (snd (invoke c r))" if "P c" for c r
    unfolding calls_extended_def using that by (intro exI [of _ "[c]"]) simp
  moreover have "calls_extended P r (emit e r)" for e r
    by (simp add: calls_extended_def)
  moreover have "calls_extended P r (count f r)" for f r
    by (simp add: calls_extended_def)
  ultimately show ?thesis
    unfolding step_relation_def
    using calls_extended_refl calls_extended_trans by blast
qed





subsection \<open>A group whose memberships are reconciled\<close>

text \<open>The memberships of a group that the target has.\<close>

lemma sync_membership_found:
  assumes "sam_account_name g \<noteq> []" and "should_sync_group cfg (sam_account_name g)"
    and "ipa_groups (target r) (sanitize (sam_account_name g)) = Some ipa_group"
    and "\<not> ipa_rejects (target r) (GroupShow (sanitize (sam_account_name g)))"
  shows "sync_membership dry_run cfg search g r =
           add_group_members dry_run (sanitize (sam_account_name g))
             (filter (\<lambda>m. m \<notin> set (member_group ipa_group))
                (snd (resolve_members search (member_refs g) ([], []))))
             (add_user_members dry_run (sanitize (sam_account_name g))
                (filter (\<lambda>u. u \<notin> set (member_user ipa_group))
                   (fst (resolve_members search (member_refs g) ([], []))))
                (r\<lparr>calls := calls r @ [GroupShow (sanitize (sam_account_name g))]\<rparr>))"
  using assms by (simp add: sync_membership_def Let_def group_show_found)

subsection \<open>Dry run and live run on the same target\<close>














subsection \<open>Facts about the group of the scenarios\<close>

lemma admins_facts [simp]:
  "sam_account_name admins = ''Admins''" "should_sync_group example_config ''Admins''"
  "sanitize ''Admins'' = ''Admins''"
  by (simp_all add: admins_def sam_account_name_def should_sync_group_def example_config_def
      sanitize_def)

lemma admins_names [simp]:
  "resolve_members example_search (member_refs admins) ([], []) = ([], [''Domain Admins''])"
  by (simp add: member_refs_def admins_def example_search_def sam_account_name_def
      object_classes_def py_lower_def set_add_def)

lemma directory_with_admins_fields [simp]:
  "ipa_groups directory_with_admins =
     [''Admins'' \<mapsto> \<lparr>member_user = [''old''], member_group = [''Domain-Admins''], group_attrs = []\<rparr>]"
  "\<not> ipa_rejects directory_with_admins c"
  by (simp_all add: directory_with_admins_def)


subsection \<open>A group that the target has\<close>

lemma sync_group_found_eq:
  assumes "sam_account_name ad_group \<noteq> []"
    and "should_sync_group cfg (sam_account_name ad_group)"
    and "ipa_groups (target r) (sanitize (sam_account_name ad_group)) = Some existing"
    and "\<not> ipa_rejects (target r) (GroupShow (sanitize (sam_account_name ad_group)))"
  shows "sync_group dry_run False cfg ad_group r =
           (Inr (), r\<lparr>run_stats := (run_stats r)\<lparr>groups_updated := groups_updated (run_stats r) + 1\<rparr>,
                      calls := calls r @ [GroupShow (sanitize (sam_account_name ad_group))]\<rparr>)"
  using assms
  by (simp add: sync_group_def sync_group_try_def group_show_found count_def Let_def)


subsection \<open>A snapshot of one user\<close>



subsection \<open>Claims about the reconcilers\<close>

text \<open>
  Claim C3. The membership reconciler only adds: whatever the source group and the
  target memberships are, every group of the target keeps, after \<open>sync_memberships\<close>,
  at least the user members and group members it had; the calls it makes are look-ups
  and member additions only; and the same holds for the memberships after a whole run
  of \<open>sync\<close>.
\<close>

theorem membership_additive:
  "members_kept (target r) (target (sync_memberships dry_run cfg search gs r)) \<and>
   calls_extended (\<lambda>c. \<not> mutating c \<or> is_add_member c) r (sync_memberships dry_run cfg search gs r) \<and>
   members_kept (target r) (target (snd (sync dry_run force_users force_groups cfg src r)))"
proof (intro conjI)
  show "members_kept (target r) (target (sync_memberships dry_run cfg search gs r))"
    by (rule sync_memberships_respects [OF step_relation_members_kept])
       (simp_all add: members_kept_refl)
  show "calls_extended (\<lambda>c. \<not> mutating c \<or> is_add_member c) r
          (sync_memberships dry_run cfg search gs r)"
    by (rule sync_memberships_respects [OF step_relation_calls_extended])
       (simp_all add: calls_extended_refl)
  show "members_kept (target r) (target (snd (sync dry_run force_users force_groups cfg src r)))"
    by (rule sync_respects [OF step_relation_members_kept]) (simp_all add: members_kept_refl)
qed


theorem membership_additive_witness:
  "\<exists>g'. ipa_groups (target (sync_memberships False example_config example_search [admins]
            (fresh_run directory_with_admins))) ''Admins'' = Some g' \<and>
        ''old'' \<in> set (member_user g') \<and> ''Domain-Admins'' \<in> set (member_group g')"
proof -
  have "members_kept (target (fresh_run directory_with_admins))
          (target (sync_memberships False example_config example_search [admins]
            (fresh_run directory_with_admins)))"
    using membership_additive [of "fresh_run directory_with_admins" False example_config
        example_search "[admins]" False False example_source]
    by blast
  moreover have "ipa_groups (target (fresh_run directory_with_admins)) ''Admins'' =
      Some \<lparr>member_user = [''old''], member_group = [''Domain-Admins''], group_attrs = []\<rparr>"
    by simp
  ultimately show ?thesis
    unfolding members_kept_def by fastforce
qed

text \<open>
  Claim C8 fails on the code by a slip: the member group names are sanitized only when
  the call is made, after the difference with the target's current group members has
  been taken. The source group \<open>Admins\<close> has the member group \<open>Domain Admins\<close>, the
  target group already has the member \<open>Domain-Admins\<close>: the difference of the
  sanitized names is empty, yet the run adds \<open>Domain-Admins\<close> again and counts a
  membership.
\<close>

theorem member_group_sanitized_late:
  "filter (\<lambda>g. g \<notin> set [''Domain-Admins'']) (map sanitize [''Domain Admins'']) = [] \<and>
   calls (sync_memberships False example_config example_search [admins]
            (fresh_run directory_with_admins)) =
     [GroupShow ''Admins'', GroupAddMember ''Admins'' MGroup ''Domain-Admins''] \<and>
   memberships_added (run_stats (sync_memberships False example_config example_search [admins]
            (fresh_run directory_with_admins))) = 1"
proof -
  let ?r = "emit StartingMembershipSync (fresh_run directory_with_admins)"
  have "sync_membership False example_config example_search admins ?r =
      add_group_members False ''Admins'' [''Domain Admins'']
        (?r\<lparr>calls := calls ?r @ [GroupShow ''Admins'']\<rparr>)"
    using sync_membership_found [of admins example_config ?r
        "\<lparr>member_user = [''old''], member_group = [''Domain-Admins''], group_attrs = []\<rparr>"
        False example_search]
    by simp
  then show ?thesis
    by (simp add: sync_memberships_def invoke_def Let_def sanitize_def no_stats_def)
qed

text \<open>
  Claim C9. An in-scope source group that the target has, with \<open>force\<close> off: whether
  the run is dry or live, the group reconciler makes the look-up and no other call, the
  target is unchanged, and the counter \<open>groups_updated\<close> goes up by exactly 1.
\<close>

theorem sync_group_found_not_forced:
  assumes "sam_account_name ad_group \<noteq> []"
    and "should_sync_group cfg (sam_account_name ad_group)"
    and "ipa_groups (target r) (sanitize (sam_account_name ad_group)) = Some existing"
    and "\<not> ipa_rejects (target r) (GroupShow (sanitize (sam_account_name ad_group)))"
  shows "fst (sync_group dry_run False cfg ad_group r) = Inr () \<and>
         target (snd (sync_group dry_run False cfg ad_group r)) = target r \<and>
         calls (snd (sync_group dry_run False cfg ad_group r)) =
           calls r @ [GroupShow (sanitize (sam_account_name ad_group))] \<and>
         run_stats (snd (sync_group dry_run False cfg ad_group r)) =
           (run_stats r)\<lparr>groups_updated := groups_updated (run_stats r) + 1\<rparr>"
  by (simp add: sync_group_found_eq [OF assms])

theorem sync_group_found_not_forced_witness:
  "target (snd (sync_group False False example_config admins (fresh_run directory_with_admins))) =
     directory_with_admins \<and>
   calls (snd (sync_group False False example_config admins (fresh_run directory_with_admins))) =
     [GroupShow ''Admins''] \<and>
   groups_updated (run_stats (snd (sync_group False False example_config admins
     (fresh_run directory_with_admins)))) = 1"
  using sync_group_found_not_forced [of admins example_config "fresh_run directory_with_admins"
      "\<lparr>member_user = [''old''], member_group = [''Domain-Admins''], group_attrs = []\<rparr>" False]
  by (simp add: no_stats_def)

text \<open>
  Claim C7, as stated, fails in a dry run: the source user is enabled and the target
  user locked, so Enable is due, but the dry run makes no call besides the look-up and
  logs the same intent whether the target is locked or not.
\<close>

theorem status_dry_run_counterexample:
  "status_decision (is_disabled_of (source_user ''jdoe'' 512))
     (ipa_is_disabled \<lparr>nsaccountlock = Some True, user_attrs = []\<rparr>) = Enable \<and>
   calls (snd (sync_user True False example_config (source_user ''jdoe'' 512)
     (fresh_run (directory_with_user ''jdoe'' True)))) = [UserShow ''jdoe''] \<and>
   logged (snd (sync_user True False example_config (source_user ''jdoe'' 512)
     (fresh_run (directory_with_user ''jdoe'' True)))) = [WouldUpdateUser ''jdoe'' False] \<and>
   logged (snd (sync_user True False example_config (source_user ''jdoe'' 512)
     (fresh_run (directory_with_user ''jdoe'' False)))) = [WouldUpdateUser ''jdoe'' False]"
  using sync_user_found_dry [of "source_user ''jdoe'' 512" example_config
      "fresh_run (directory_with_user ''jdoe'' True)"
      "\<lparr>nsaccountlock = Some True, user_attrs = []\<rparr>" False]
    sync_user_found_dry [of "source_user ''jdoe'' 512" example_config
      "fresh_run (directory_with_user ''jdoe'' False)"
      "\<lparr>nsaccountlock = Some False, user_attrs = []\<rparr>" False]
  by (simp add: status_decision_def ipa_is_disabled_def)

text \<open>
  Claim C7, amended. For every in-scope source principal found on the target, in a live
  run (\<open>dry_run\<close> off) whose look-up and attribute update the server does not refuse,
  and for both values of \<open>force\<close>: after the look-up (and, with \<open>force\<close>, the
  attribute update when there is an attribute to write) the reconciler makes exactly
  the status call of the decision, Enable iff the source is enabled and the target
  locked, Disable iff the source is disabled and the target unlocked, none otherwise;
  the decision does not depend on \<open>force\<close>.
\<close>

theorem sync_user_found_status:
  assumes "sam_account_name ad_user \<noteq> []" and "should_sync_user cfg (sam_account_name ad_user)"
    and "ipa_users (target r) (sam_account_name ad_user) = Some existing"
    and "\<not> ipa_rejects (target r) (UserShow (sam_account_name ad_user))"
    and "\<not> ipa_rejects (target r)
           (UserMod (sam_account_name ad_user) (user_mod_params (map_user_attributes cfg ad_user)))"
  shows "calls (snd (sync_user False force cfg ad_user r)) =
           calls r @ [UserShow (sam_account_name ad_user)] @
           (if force \<and> user_mod_params (map_user_attributes cfg ad_user) \<noteq> []
            then [UserMod (sam_account_name ad_user) (user_mod_params (map_user_attributes cfg ad_user))]
            else []) @
           status_calls (sam_account_name ad_user)
             (status_decision (is_disabled_of ad_user) (ipa_is_disabled existing))"
  using assms by (rule sync_user_found_calls)

theorem sync_user_found_status_witness:
  "calls (snd (sync_user False True example_config (source_user ''jdoe'' 512)
     (fresh_run (directory_with_user ''jdoe'' True)))) = [UserShow ''jdoe'', UserEnable ''jdoe''] \<and>
   calls (snd (sync_user False False example_config (source_user ''jdoe'' 512)
     (fresh_run (directory_with_user ''jdoe'' True)))) = [UserShow ''jdoe'', UserEnable ''jdoe'']"
  using sync_user_found_status [of "source_user ''jdoe'' 512" example_config
      "fresh_run (directory_with_user ''jdoe'' True)"
      "\<lparr>nsaccountlock = Some True, user_attrs = []\<rparr>" True]
    sync_user_found_status [of "source_user ''jdoe'' 512" example_config
      "fresh_run (directory_with_user ''jdoe'' True)"
      "\<lparr>nsaccountlock = Some True, user_attrs = []\<rparr>" False]
  by (simp add: status_decision_def ipa_is_disabled_def mapped_source_user user_mod_params_def
      pick_params_def)







end
